theory Spec2Isabelle
  imports Main "HOL-Library.Word"
begin

unbundle bit_operations_syntax

section \<open>The LEDP server core (server.h)\<close>

text \<open>
  The common header defines the decoded packet and the receive loop
  \<^verbatim>\<open>start_ledp_server\<close>.  The fields \<^verbatim>\<open>mask\<close> and \<^verbatim>\<open>values\<close> of the C struct are
  called \<open>mask_bits\<close> and \<open>values_bits\<close> here, because \<open>mask\<close> is a constant of the
  word library and \<open>values\<close> is a command of the proof language.
\<close>

type_synonym u8 = "8 word"
type_synonym u32 = "32 word"

record ledp_packet =
  protocol_version :: u8
  mask_bits :: u32
  values_bits :: u32

definition PROTOCOL_VERSION :: u8 where
  "PROTOCOL_VERSION = 1"

text \<open>
  What the socket hands to one call of \<^verbatim>\<open>recv\<close>: a datagram (any number of bytes,
  possibly none) or a failure of the call.
\<close>

datatype net_event = Dgram "u8 list" | RecvFail

text \<open>
  \<^verbatim>\<open>recv(sock, &received, n, 0)\<close> on a datagram socket, with no flags: the first \<open>n\<close>
  bytes of the datagram are copied into the buffer, the rest of the datagram is
  discarded, and the number of bytes copied is returned; a failed call returns \<open>-1\<close>.
\<close>

fun recv :: "net_event \<Rightarrow> nat \<Rightarrow> int \<times> u8 list" where
  "recv (Dgram d) n = (int (length (take n d)), take n d)"
| "recv RecvFail n = (-1, [])"

text \<open>
  The code reads the two 32-bit fields with \<^verbatim>\<open>*(uint32_t* )(received+k)\<close>, that is in
  the byte order of the host, and then passes the result through \<^verbatim>\<open>htonl\<close>.  Both
  depend on the host, so the host's byte order is a parameter.
\<close>

datatype byte_order = LittleEndian | BigEndian

definition load_u32 :: "byte_order \<Rightarrow> u8 list \<Rightarrow> nat \<Rightarrow> u32" where
  "load_u32 host buf k =
     (case host of
        LittleEndian \<Rightarrow>
          ucast (buf ! k) OR push_bit 8 (ucast (buf ! (k + 1)))
            OR push_bit 16 (ucast (buf ! (k + 2))) OR push_bit 24 (ucast (buf ! (k + 3)))
      | BigEndian \<Rightarrow>
          push_bit 24 (ucast (buf ! k)) OR push_bit 16 (ucast (buf ! (k + 1)))
            OR push_bit 8 (ucast (buf ! (k + 2))) OR ucast (buf ! (k + 3)))"

definition htonl :: "byte_order \<Rightarrow> u32 \<Rightarrow> u32" where
  "htonl host w =
     (case host of
        LittleEndian \<Rightarrow>
          push_bit 24 (ucast (ucast w :: u8))
            OR push_bit 16 (ucast (ucast (drop_bit 8 w) :: u8))
            OR push_bit 8 (ucast (ucast (drop_bit 16 w) :: u8))
            OR ucast (ucast (drop_bit 24 w) :: u8)
      | BigEndian \<Rightarrow> w)"

text \<open>
  The body of one turn of the \<^verbatim>\<open>while (1)\<close> loop up to the call of the handler:
  \<open>None\<close> is a \<^verbatim>\<open>continue\<close>, \<open>Some packet\<close> is the packet passed to the handler.
\<close>

definition ledp_receive :: "byte_order \<Rightarrow> net_event \<Rightarrow> ledp_packet option" where
  "ledp_receive host ev =
     (let (n, received) = recv ev 9 in
      if n \<noteq> 9 then None
      else let version = received ! 0 in
        if version \<noteq> PROTOCOL_VERSION then None
        else Some \<lparr> protocol_version = version,
                    mask_bits = htonl host (load_u32 host received 1),
                    values_bits = htonl host (load_u32 host received 5) \<rparr>)"

text \<open>
  A handler may end the process (a failed \<^verbatim>\<open>assert\<close>); the loop itself never
  returns.  One turn of the loop, and the loop over the events received so far:
\<close>

datatype fatal = AssertionFailed | UndefinedShift | BufferOverflow | OutOfBounds

definition ledp_iteration ::
  "byte_order \<Rightarrow> ('st \<Rightarrow> ledp_packet \<Rightarrow> fatal + 'st) \<Rightarrow> 'st \<Rightarrow> net_event \<Rightarrow> fatal + 'st" where
  "ledp_iteration host handler opaque ev =
     (case ledp_receive host ev of
        None \<Rightarrow> Inr opaque
      | Some packet \<Rightarrow> handler opaque packet)"

fun ledp_serve ::
  "byte_order \<Rightarrow> ('st \<Rightarrow> ledp_packet \<Rightarrow> fatal + 'st) \<Rightarrow> 'st \<Rightarrow> net_event list \<Rightarrow> fatal + 'st" where
  "ledp_serve host handler opaque [] = Inr opaque"
| "ledp_serve host handler opaque (ev # evs) =
     (case ledp_iteration host handler opaque ev of
        Inl e \<Rightarrow> Inl e
      | Inr opaque' \<Rightarrow> ledp_serve host handler opaque' evs)"

text \<open>The big-endian reading of four bytes, as a number.\<close>

definition be32 :: "u8 \<Rightarrow> u8 \<Rightarrow> u8 \<Rightarrow> u8 \<Rightarrow> nat" where
  "be32 b0 b1 b2 b3 = unat b0 * 2 ^ 24 + unat b1 * 2 ^ 16 + unat b2 * 2 ^ 8 + unat b3"


text \<open>
  The commands of a run, once decoded, reach the handler one after the other, in the
  order of arrival: \<open>apply_all\<close> is the loop seen from the handler.
\<close>

fun apply_all :: "('st \<Rightarrow> ledp_packet \<Rightarrow> fatal + 'st) \<Rightarrow> 'st \<Rightarrow> ledp_packet list \<Rightarrow> fatal + 'st" where
  "apply_all handler opaque [] = Inr opaque"
| "apply_all handler opaque (packet # packets) =
     (case handler opaque packet of
        Inl e \<Rightarrow> Inl e
      | Inr opaque' \<Rightarrow> apply_all handler opaque' packets)"

definition newline :: char where
  "newline = CHR 0x0A"

section \<open>The Wiimote server (wiimote.c)\<close>

text \<open>
  Modelled from the spec: the header \<^verbatim>\<open>cwiid.h\<close> of the library is not among the sources.
  The four flags are the bits of the LED register of the remote (section 4.5: a single
  combined flags value representing the whole device's on/off register), LED \<open>k + 1\<close>
  at bit \<open>k\<close>, which are the values the library gives them.
\<close>

definition CWIID_LED1_ON :: u32 where "CWIID_LED1_ON = 0x01"
definition CWIID_LED2_ON :: u32 where "CWIID_LED2_ON = 0x02"
definition CWIID_LED3_ON :: u32 where "CWIID_LED3_ON = 0x04"
definition CWIID_LED4_ON :: u32 where "CWIID_LED4_ON = 0x08"

definition led_flags :: "u32 list" where
  "led_flags = [CWIID_LED1_ON, CWIID_LED2_ON, CWIID_LED3_ON, CWIID_LED4_ON]"

text \<open>
  The remote and the link to it: the LED register as the remote last received it, the
  argument of every call of \<^verbatim>\<open>cwiid_set_led\<close> so far, and, for the calls to come, whether
  each fails (an empty list: none fails).
\<close>

record cwiid_wiimote =
  led_register :: u8
  sent :: "u8 list"
  link_faults :: "bool list"

text \<open>
  \<^verbatim>\<open>cwiid_set_led\<close> is a call into the library: one call is one write of the whole LED
  register to the remote; it returns non-zero when the write fails, and the remote then
  keeps its register.
\<close>

definition cwiid_set_led :: "cwiid_wiimote \<Rightarrow> u8 \<Rightarrow> int \<times> cwiid_wiimote" where
  "cwiid_set_led w led =
     (case link_faults w of
        [] \<Rightarrow> (0, w\<lparr> led_register := led, sent := sent w @ [led] \<rparr>)
      | failing # rest \<Rightarrow>
          if failing then (-1, w\<lparr> sent := sent w @ [led], link_faults := rest \<rparr>)
          else (0, w\<lparr> led_register := led, sent := sent w @ [led], link_faults := rest \<rparr>))"

text \<open>
  \<^verbatim>\<open>server_data\<close> of this server, and the process around it: the lines it has printed on
  the standard error.  The field \<^verbatim>\<open>leds\<close> is the shadow of the LED register; it is an
  \<^verbatim>\<open>int\<close> in the code and is only used bitwise, so its 32 bits are kept as a word.
\<close>

record wiimote_server_data =
  wiimote :: cwiid_wiimote
  leds :: u32

record wiimote_process = wiimote_server_data +
  wiimote_stderr :: "string list"

text \<open>The loop over the four LEDs that builds \<^verbatim>\<open>flags\<close>.\<close>

definition wiimote_flags :: "u32 \<Rightarrow> u32" where
  "wiimote_flags l =
     fold (\<lambda>i flags. if l AND push_bit i 1 \<noteq> 0 then flags OR led_flags ! i else flags)
       [0..<4] 0"

text \<open>
  \<^verbatim>\<open>handle_message\<close>.  It has no failing path: a failed write is printed and the function
  returns.  The flags are passed as the \<^verbatim>\<open>uint8_t\<close> argument of \<^verbatim>\<open>cwiid_set_led\<close>.
\<close>

definition wiimote_handle_message :: "wiimote_process \<Rightarrow> ledp_packet \<Rightarrow> wiimote_process" where
  "wiimote_handle_message data packet =
     (let leds1 = leds data AND NOT (mask_bits packet);
          leds2 = leds1 OR values_bits packet;
          flags = wiimote_flags leds2;
          (status, w) = cwiid_set_led (wiimote data) (ucast flags)
      in data\<lparr> wiimote := w, leds := leds2,
               wiimote_stderr :=
                 (if status \<noteq> 0
                  then wiimote_stderr data @ [''Couldn't send command to Wiimote'' @ [newline]]
                  else wiimote_stderr data) \<rparr>)"

text \<open>
  The state with which \<^verbatim>\<open>main\<close> starts the server, once \<^verbatim>\<open>cwiid_open\<close> has returned the
  remote \<open>w\<close>: \<^verbatim>\<open>data.leds = 0\<close>.
\<close>

definition wiimote_initial :: "cwiid_wiimote \<Rightarrow> wiimote_process" where
  "wiimote_initial w = \<lparr> wiimote = w, leds = 0, wiimote_stderr = [] \<rparr>"

text \<open>The handler as the loop calls it, and a run of the server over decoded commands.\<close>

definition wiimote_handler :: "wiimote_process \<Rightarrow> ledp_packet \<Rightarrow> fatal + wiimote_process" where
  "wiimote_handler data packet = Inr (wiimote_handle_message data packet)"

definition wiimote_run :: "wiimote_process \<Rightarrow> ledp_packet list \<Rightarrow> wiimote_process" where
  "wiimote_run data packets = foldl wiimote_handle_message data packets"

text \<open>The same process on a link on which no write fails.\<close>

definition sound_link :: "wiimote_process \<Rightarrow> wiimote_process" where
  "sound_link d = d\<lparr> wiimote := (wiimote d)\<lparr> link_faults := [] \<rparr> \<rparr>"

text \<open>
  Two commands agree on LED \<open>i\<close>, and on the four LEDs of the remote, when their masks
  and their values have the same bits there.
\<close>

definition agree_bit :: "nat \<Rightarrow> ledp_packet \<Rightarrow> ledp_packet \<Rightarrow> bool" where
  "agree_bit i p q =
     (bit (mask_bits p) i = bit (mask_bits q) i \<and> bit (values_bits p) i = bit (values_bits q) i)"

definition agree_low :: "ledp_packet \<Rightarrow> ledp_packet \<Rightarrow> bool" where
  "agree_low p q =
     (take_bit 4 (mask_bits p) = take_bit 4 (mask_bits q)
      \<and> take_bit 4 (values_bits p) = take_bit 4 (values_bits q))"

section \<open>Output shared by the file-based servers\<close>

text \<open>
  A file open for writing: the data of every \<^verbatim>\<open>write\<close> that succeeded, in order, and, for
  the calls to come, whether each fails (an empty list: none fails).
\<close>

record out_file =
  writes :: "string list"
  write_faults :: "bool list"

text \<open>
  \<^verbatim>\<open>write(fd, buf, count)\<close> on such a file: the first \<open>count\<close> bytes of \<open>buf\<close> are written
  and \<open>count\<close> is returned, or the call fails with \<open>-1\<close> and writes nothing.
\<close>

definition sys_write :: "out_file \<Rightarrow> string \<Rightarrow> nat \<Rightarrow> int \<times> out_file" where
  "sys_write f buf count =
     (case write_faults f of
        [] \<Rightarrow> (int count, f\<lparr> writes := writes f @ [take count buf] \<rparr>)
      | failing # rest \<Rightarrow>
          if failing then (-1, f\<lparr> write_faults := rest \<rparr>)
          else (int count, f\<lparr> writes := writes f @ [take count buf], write_faults := rest \<rparr>))"

definition next_write_fails :: "out_file \<Rightarrow> bool" where
  "next_write_fails f = (case write_faults f of [] \<Rightarrow> False | failing # rest \<Rightarrow> failing)"

text \<open>Decimal output, as \<^verbatim>\<open>%u\<close> and \<^verbatim>\<open>%d\<close> of \<^verbatim>\<open>sprintf\<close> produce it.\<close>

definition digit_char :: "nat \<Rightarrow> char" where
  "digit_char n = ''0123456789'' ! n"

function dec :: "nat \<Rightarrow> string" where
  "dec n = (if n < 10 then [digit_char n] else dec (n div 10) @ [digit_char (n mod 10)])"
  by pat_completeness auto
termination
  by (relation "measure id") auto

declare dec.simps [simp del]

definition fmt_u :: "nat \<Rightarrow> string" where
  "fmt_u n = dec n"

definition fmt_d :: "int \<Rightarrow> string" where
  "fmt_d k = (if k < 0 then ''-'' @ dec (nat (- k)) else dec (nat k))"

text \<open>
  \<^verbatim>\<open>sprintf(buf + off, ...)\<close> with the formatted text \<open>text\<close>: the text and a terminating
  NUL are stored from offset \<open>off\<close>, and the length of the text is returned.  Storing
  beyond the end of the array is the failure \<open>BufferOverflow\<close>.
\<close>

definition sprintf_at :: "string \<Rightarrow> nat \<Rightarrow> string \<Rightarrow> fatal + string" where
  "sprintf_at buf off text =
     (if off + length text + 1 \<le> length buf
      then Inr (take off buf @ text @ [CHR 0x00] @ drop (off + length text + 1) buf)
      else Inl BufferOverflow)"

section \<open>The AirOS server (airos.c)\<close>

text \<open>
  \<^verbatim>\<open>server_data\<close> holds the descriptor of the control file.  The process around it: the
  control file behind the descriptor, and the 224 bytes of stack in which
  \<^verbatim>\<open>handle_message\<close> finds its array \<^verbatim>\<open>commands\<close>, not initialised, on each call.
\<close>

record airos_server_data =
  control_fd :: int

record airos_process = airos_server_data +
  control_file :: out_file
  commands_mem :: string

text \<open>
  The tests \<^verbatim>\<open>packet->mask & (1 << i)\<close> and \<^verbatim>\<open>!!(packet->values & (1 << i))\<close>, for
  \<open>i\<close> below 32, on the 32 bits of the operands.
\<close>

definition airos_addressed :: "ledp_packet \<Rightarrow> nat \<Rightarrow> bool" where
  "airos_addressed packet i = (mask_bits packet AND push_bit i 1 \<noteq> 0)"

definition airos_value :: "ledp_packet \<Rightarrow> nat \<Rightarrow> int" where
  "airos_value packet i = (if values_bits packet AND push_bit i 1 \<noteq> 0 then 1 else 0)"

text \<open>The text of \<^verbatim>\<open>sprintf(..., "%u %d %d\n", i, value, value)\<close>.\<close>

definition airos_format :: "nat \<Rightarrow> int \<Rightarrow> int \<Rightarrow> string" where
  "airos_format i v1 v2 = fmt_u i @ '' '' @ fmt_d v1 @ '' '' @ fmt_d v2 @ [newline]"

text \<open>The loop \<^verbatim>\<open>for (i = 0; i < 32; i++)\<close>, from index \<open>i\<close> on.\<close>

function airos_loop :: "ledp_packet \<Rightarrow> nat \<Rightarrow> string \<Rightarrow> nat \<Rightarrow> fatal + (string \<times> nat)" where
  "airos_loop packet i commands commands_length =
     (if i < 32 then
        if \<not> airos_addressed packet i then airos_loop packet (Suc i) commands commands_length
        else
          case sprintf_at commands commands_length
                 (airos_format i (airos_value packet i) (airos_value packet i)) of
            Inl e \<Rightarrow> Inl e
          | Inr commands' \<Rightarrow>
              airos_loop packet (Suc i) commands'
                (commands_length
                  + length (airos_format i (airos_value packet i) (airos_value packet i)))
      else Inr (commands, commands_length))"
  by pat_completeness auto
termination
  by (relation "measure (\<lambda>(packet, i, commands, commands_length). 32 - i)") auto

declare airos_loop.simps [simp del]

text \<open>\<^verbatim>\<open>handle_message\<close>: the loop, then one \<^verbatim>\<open>write\<close> and the \<^verbatim>\<open>assert\<close> on its result.\<close>

definition airos_handle_message :: "airos_process \<Rightarrow> ledp_packet \<Rightarrow> fatal + airos_process" where
  "airos_handle_message data packet =
     (case airos_loop packet 0 (commands_mem data) 0 of
        Inl e \<Rightarrow> Inl e
      | Inr (commands, commands_length) \<Rightarrow>
          let (written, f) = sys_write (control_file data) commands commands_length in
          if written = int commands_length
          then Inr (data\<lparr> control_file := f, commands_mem := commands \<rparr>)
          else Inl AssertionFailed)"

text \<open>
  The text the specification asks for: one line per addressed index, in increasing
  order of the index, each with the pin and twice the wanted bit.
\<close>

definition airos_line :: "ledp_packet \<Rightarrow> nat \<Rightarrow> string" where
  "airos_line packet i =
     dec i @ '' '' @ (if bit (values_bits packet) i then ''1'' else ''0'')
       @ '' '' @ (if bit (values_bits packet) i then ''1'' else ''0'') @ [newline]"

definition airos_lines :: "ledp_packet \<Rightarrow> nat \<Rightarrow> string list" where
  "airos_lines packet i =
     map (airos_line packet) (filter (\<lambda>j. bit (mask_bits packet) j) [i..<32])"

section \<open>The sysfs server (sysfs-leds.c)\<close>

text \<open>
  \<^verbatim>\<open>led_entry\<close> and \<^verbatim>\<open>server_data\<close>.  The array \<^verbatim>\<open>entries\<close> is a list with one slot for
  each name found by \<^verbatim>\<open>scandir\<close>; the two counters are of type \<^verbatim>\<open>size_t\<close> and count
  directory entries, so they are natural numbers here.  \<^verbatim>\<open>max_brightness\<close> is an \<^verbatim>\<open>int\<close>:
  32 bits, read as a signed number by \<open>sint\<close>.
\<close>

record led_entry =
  brightness_fd :: int
  max_brightness :: u32

record sysfs_server_data =
  entries :: "led_entry list"
  entries_count :: nat
  entries_found :: nat

text \<open>
  The process around it: the files behind the descriptors, the 16 bytes of stack of
  the array \<^verbatim>\<open>line\<close>, and what has been printed.
\<close>

record sysfs_process = sysfs_server_data +
  files :: "int \<Rightarrow> out_file"
  line_mem :: string
  sysfs_stdout :: "string list"
  sysfs_stderr :: "string list"

text \<open>\<^verbatim>\<open>int value = (packet->values & (1 << led)) ? entry->max_brightness : 0\<close>.\<close>

definition sysfs_value :: "ledp_packet \<Rightarrow> nat \<Rightarrow> led_entry \<Rightarrow> u32" where
  "sysfs_value packet led entry =
     (if values_bits packet AND push_bit led 1 \<noteq> 0 then max_brightness entry else 0)"

text \<open>The text of \<^verbatim>\<open>sprintf(line, "%d\n", value)\<close>.\<close>

definition sysfs_format :: "u32 \<Rightarrow> string" where
  "sysfs_format v = fmt_d (sint v) @ [newline]"

text \<open>
  The loop of \<^verbatim>\<open>handle_message\<close>, from index \<open>led\<close> on.  A shift \<^verbatim>\<open>1 << led\<close> by 32 or
  more and an access beyond the array have no defined result in C: they are failures
  of the model.
\<close>

function sysfs_loop :: "ledp_packet \<Rightarrow> nat \<Rightarrow> sysfs_process \<Rightarrow> fatal + sysfs_process" where
  "sysfs_loop packet led data =
     (if led < entries_count data then
        if 32 \<le> led then Inl UndefinedShift
        else if mask_bits packet AND push_bit led 1 = 0 then sysfs_loop packet (Suc led) data
        else if length (entries data) \<le> led then Inl OutOfBounds
        else
          case sprintf_at (line_mem data) 0
                 (sysfs_format (sysfs_value packet led (entries data ! led))) of
            Inl e \<Rightarrow> Inl e
          | Inr line \<Rightarrow>
              case sys_write (files data (brightness_fd (entries data ! led))) line
                     (length (sysfs_format (sysfs_value packet led (entries data ! led)))) of
                (written, f) \<Rightarrow>
                  if written
                       = int (length (sysfs_format (sysfs_value packet led (entries data ! led))))
                  then sysfs_loop packet (Suc led)
                         (data\<lparr> files := (files data)(brightness_fd (entries data ! led) := f),
                                line_mem := line \<rparr>)
                  else Inl AssertionFailed
      else Inr data)"
  by pat_completeness auto
termination
  by (relation "measure (\<lambda>(packet, led, data). entries_count data - led)") auto

declare sysfs_loop.simps [simp del]

definition sysfs_handle_message :: "sysfs_process \<Rightarrow> ledp_packet \<Rightarrow> fatal + sysfs_process" where
  "sysfs_handle_message data packet = sysfs_loop packet 0 data"

text \<open>
  What the setup finds outside the process: the results of \<^verbatim>\<open>chdir\<close>, \<^verbatim>\<open>scandir\<close> (the
  names in the order of \<^verbatim>\<open>alphasort\<close>, or a failure) and \<^verbatim>\<open>calloc\<close>, and for each path
  whether \<^verbatim>\<open>fopen\<close> succeeds, what \<^verbatim>\<open>fscanf\<close> reads there (if anything) and the descriptor
  that \<^verbatim>\<open>open\<close> returns (\<open>-1\<close> on failure); the files behind the descriptors and the
  stack.
\<close>

record sysfs_env =
  chdir_status :: int
  scandir_result :: "string list option"
  calloc_ok :: bool
  fopen_r :: "string \<Rightarrow> bool"
  fscanf_d :: "string \<Rightarrow> u32 option"
  open_wronly :: "string \<Rightarrow> int"
  kernel_files :: "int \<Rightarrow> out_file"
  stack_mem :: string

text \<open>
  \<^verbatim>\<open>process_led\<close>, with its status.  The names come from \<^verbatim>\<open>scandir\<close> and are at most 255
  bytes long, so that the 288 bytes of \<^verbatim>\<open>path\<close> suffice.
\<close>

definition process_led :: "sysfs_env \<Rightarrow> sysfs_process \<Rightarrow> string \<Rightarrow> fatal + (int \<times> sysfs_process)" where
  "process_led env data0 name =
     (let data1 = data0\<lparr> entries_found := entries_found data0 + 1 \<rparr> in
      if entries_count data1 \<ge> 32 then Inr (1, data1)
      else if length (entries data1) \<le> entries_count data1 then Inl OutOfBounds
      else
        let k = entries_count data1;
            data2 = data1\<lparr> entries_count := k + 1 \<rparr>;
            path = name @ ''/max_brightness''
        in
        if \<not> fopen_r env path
        then Inr (1, data2\<lparr> sysfs_stderr := sysfs_stderr data2
                       @ [''Couldn't open '' @ path @ '' for reading'' @ [newline]] \<rparr>)
        else
          case fscanf_d env path of
            None \<Rightarrow>
              Inr (1, data2\<lparr> sysfs_stderr := sysfs_stderr data2
                        @ [''Couldn't scan max brightness of LED '' @ name @ [newline]] \<rparr>)
          | Some mb \<Rightarrow>
              let data3 = data2\<lparr> entries :=
                            (entries data2)[k := (entries data2 ! k)\<lparr> max_brightness := mb \<rparr>] \<rparr>;
                  path' = name @ ''/brightness'';
                  fd = open_wronly env path';
                  data4 = data3\<lparr> entries :=
                            (entries data3)[k := (entries data3 ! k)\<lparr> brightness_fd := fd \<rparr>] \<rparr>
              in
              if fd = -1
              then Inr (1, data4\<lparr> sysfs_stderr := sysfs_stderr data4
                             @ [''Couldn't open '' @ path' @ '' for writing'' @ [newline]] \<rparr>)
              else Inr (0, data4))"

text \<open>The loop of \<^verbatim>\<open>main\<close> over the names; a non-zero status makes \<^verbatim>\<open>main\<close> return 1.\<close>

fun sysfs_scan ::
  "sysfs_env \<Rightarrow> string list \<Rightarrow> sysfs_process \<Rightarrow> fatal + (int \<times> sysfs_process)" where
  "sysfs_scan env [] data = Inr (0, data)"
| "sysfs_scan env (name # names) data =
     (if name = ''.'' \<or> name = ''..'' then sysfs_scan env names data
      else
        case process_led env data name of
          Inl e \<Rightarrow> Inl e
        | Inr (status, data') \<Rightarrow>
            if status \<noteq> 0 then Inr (status, data') else sysfs_scan env names data')"

text \<open>
  The data before the first name is processed: both counters at 0 and an array of
  \<open>lednames_count\<close> entries from \<^verbatim>\<open>calloc\<close>, all zero.
\<close>

definition sysfs_initial :: "sysfs_env \<Rightarrow> nat \<Rightarrow> sysfs_process" where
  "sysfs_initial env lednames_count =
     \<lparr> entries = replicate lednames_count \<lparr> brightness_fd = 0, max_brightness = 0 \<rparr>,
       entries_count = 0, entries_found = 0,
       files = kernel_files env, line_mem = stack_mem env,
       sysfs_stdout = [], sysfs_stderr = [] \<rparr>"

text \<open>
  \<^verbatim>\<open>main\<close> up to the call of \<^verbatim>\<open>start_ledp_server\<close>: it returns a status with what it has
  printed on the standard error, or it starts to serve with the data it has built.
\<close>

datatype sysfs_outcome =
    is_Crash: Crash fatal
  | is_Exit: Exit (exit_status: int) (exit_stderr: "string list")
  | is_Serve: Serve (served: sysfs_process)

definition sysfs_main :: "sysfs_env \<Rightarrow> sysfs_outcome" where
  "sysfs_main env =
     (if chdir_status env \<noteq> 0
      then Exit 1 [''Couldn't enter /sys/class/leds directory.'' @ [newline]]
      else
        case scandir_result env of
          None \<Rightarrow> Exit 1 [''Failed to scan /sys/class/leds for LEDs'' @ [newline]]
        | Some lednames \<Rightarrow>
            if \<not> calloc_ok env
            then Exit 1 [''Couldn't allocate space for LED entries'' @ [newline]]
            else
              case sysfs_scan env lednames (sysfs_initial env (length lednames)) of
                Inl e \<Rightarrow> Crash e
              | Inr (status, data) \<Rightarrow>
                  if status \<noteq> 0 then Exit 1 (sysfs_stderr data)
                  else
                    let data' =
                          (if entries_found data > entries_count data
                           then data\<lparr> sysfs_stderr := sysfs_stderr data
                                  @ [''Warning: '' @ fmt_u (entries_found data)
                                     @ '' LEDs found. Serving the first ''
                                     @ fmt_u (entries_count data) @ ''.'' @ [newline]] \<rparr>
                           else data)
                    in Serve (data'\<lparr> sysfs_stdout := sysfs_stdout data'
                                 @ [''Serving '' @ fmt_u (entries_count data') @ '' LEDs.''
                                    @ [newline]] \<rparr>))"

text \<open>
  A directory with \<open>n\<close> LEDs, named \<open>led00\<close>, \<open>led01\<close>, ..., every one with the maximum
  brightness 255 and a control file that opens, LED \<open>k\<close> on descriptor \<open>3 + k\<close>.
\<close>

definition led_name :: "nat \<Rightarrow> string" where
  "led_name k = ''led'' @ [digit_char (k div 10), digit_char (k mod 10)]"

definition leds_directory :: "nat \<Rightarrow> sysfs_env" where
  "leds_directory n =
     \<lparr> chdir_status = 0,
       scandir_result = Some ([''.'', ''..''] @ map led_name [0..<n]),
       calloc_ok = True,
       fopen_r = (\<lambda>path. True),
       fscanf_d = (\<lambda>path. Some 255),
       open_wronly = (\<lambda>path.
          case map_of (map (\<lambda>k. (led_name k @ ''/brightness'', 3 + int k)) [0..<n]) path of
            None \<Rightarrow> -1 | Some fd \<Rightarrow> fd),
       kernel_files = (\<lambda>fd. \<lparr> writes = [], write_faults = [] \<rparr>),
       stack_mem = replicate 16 (CHR ''?'') \<rparr>"

text \<open>
  The names that \<^verbatim>\<open>main\<close> passes to \<^verbatim>\<open>process_led\<close>, and the texts that one command makes
  the handler write to the descriptor \<open>fd\<close>, from index \<open>led\<close> on.
\<close>

definition candidates :: "string list \<Rightarrow> string list" where
  "candidates names = filter (\<lambda>name. name \<noteq> ''.'' \<and> name \<noteq> ''..'') names"

definition sysfs_texts :: "ledp_packet \<Rightarrow> sysfs_process \<Rightarrow> int \<Rightarrow> nat \<Rightarrow> string list" where
  "sysfs_texts p d fd led =
     map (\<lambda>k. sysfs_format (if bit (values_bits p) k then max_brightness (entries d ! k) else 0))
       (filter (\<lambda>k. bit (mask_bits p) k \<and> brightness_fd (entries d ! k) = fd)
          [led..<entries_count d])"

section \<open>The devices behind the files\<close>


text \<open>
  The state in which the sysfs server can take commands without failing: at most 32
  LEDs, all within the array, each with a descriptor of its own, 16 bytes for \<^verbatim>\<open>line\<close>,
  and no write to a LED is going to fail.
\<close>

definition sysfs_ready :: "sysfs_process \<Rightarrow> bool" where
  "sysfs_ready d =
     (entries_count d \<le> 32 \<and> entries_count d \<le> length (entries d)
      \<and> length (line_mem d) = 16
      \<and> distinct (map brightness_fd (take (entries_count d) (entries d)))
      \<and> list_all (\<lambda>e. write_faults (files d (brightness_fd e)) = [])
           (take (entries_count d) (entries d)))"

text \<open>
  The control file \<^verbatim>\<open>/proc/gpio/system_led\<close> belongs to the firmware.  As the header of
  \<^verbatim>\<open>airos.c\<close> describes it, it takes lines of three integers separated by spaces: the
  pin, and two booleans for its direction and its level, in an order that the source
  leaves open.  The state of a pin is the pair of booleans of the last line that named
  it; a write is consumed line by line, and what follows the last newline is dropped.
\<close>

type_synonym gpio = "nat \<Rightarrow> (nat \<times> nat) option"

definition digit_val :: "char \<Rightarrow> nat option" where
  "digit_val c = map_of (zip ''0123456789'' [0..<10]) c"

fun parse_dec_acc :: "nat \<Rightarrow> string \<Rightarrow> nat option" where
  "parse_dec_acc acc [] = Some acc"
| "parse_dec_acc acc (c # cs) =
     (case digit_val c of None \<Rightarrow> None | Some v \<Rightarrow> parse_dec_acc (10 * acc + v) cs)"

definition parse_dec :: "string \<Rightarrow> nat option" where
  "parse_dec s = (if s = [] then None else parse_dec_acc 0 s)"

fun split_on :: "char \<Rightarrow> string \<Rightarrow> string list" where
  "split_on c [] = [[]]"
| "split_on c (x # xs) =
     (if x = c then [] # split_on c xs
      else (x # hd (split_on c xs)) # tl (split_on c xs))"

definition parse_line :: "string \<Rightarrow> (nat \<times> nat \<times> nat) option" where
  "parse_line l =
     (case map parse_dec (split_on (CHR '' '') l) of
        [Some pin, Some a, Some b] \<Rightarrow> Some (pin, a, b)
      | _ \<Rightarrow> None)"

definition gpio_line :: "string \<Rightarrow> gpio \<Rightarrow> gpio" where
  "gpio_line l pins =
     (case parse_line l of None \<Rightarrow> pins | Some (pin, a, b) \<Rightarrow> pins(pin \<mapsto> (a, b)))"

definition gpio_write :: "string \<Rightarrow> gpio \<Rightarrow> gpio" where
  "gpio_write text pins = fold gpio_line (butlast (split_on newline text)) pins"

definition gpio_pins :: "out_file \<Rightarrow> gpio \<Rightarrow> gpio" where
  "gpio_pins f pins = fold gpio_write (writes f) pins"

text \<open>A line of the AirOS server without its newline.\<close>

definition airos_body :: "nat \<Rightarrow> bool \<Rightarrow> string" where
  "airos_body i b =
     dec i @ '' '' @ (if b then ''1'' else ''0'') @ '' '' @ (if b then ''1'' else ''0'')"

text \<open>The state in which the AirOS server can take commands without failing.\<close>

definition airos_ready :: "airos_process \<Rightarrow> bool" where
  "airos_ready d = (length (commands_mem d) = 224 \<and> write_faults (control_file d) = [])"

text \<open>Whether call number \<open>k\<close> (from 0) of those to come fails, for a list of faults.\<close>

definition fails_at :: "bool list \<Rightarrow> nat \<Rightarrow> bool" where
  "fails_at faults k = (k < length faults \<and> faults ! k)"

text \<open>
  The lines of the indices below \<open>i\<close> take at most \<open>airos_bound i\<close> bytes: six for each
  of the ten one-digit indices, seven for each of the others.
\<close>

definition airos_bound :: "nat \<Rightarrow> nat" where
  "airos_bound i = (if i \<le> 10 then 6 * i else 7 * i - 10)"

text \<open>
  The contract of section 4.3 for the shadow register: an addressed LED takes the bit
  of the values, every other LED keeps its state.
\<close>

definition contract_shadow :: "u32 \<Rightarrow> ledp_packet \<Rightarrow> u32" where
  "contract_shadow l p = (l AND NOT (mask_bits p)) OR (values_bits p AND mask_bits p)"

section \<open>Properties of the receive loop\<close>

subsection \<open>Byte order\<close>

lemma bit_u8_bound: "bit (a::u8) n \<Longrightarrow> n < 8"
  using bit_imp_le_length[of a n] by simp

lemma le_byte0:
  "(ucast (ucast (a::u8) OR push_bit 8 (ucast (b::u8)) OR push_bit 16 (ucast (c::u8))
      OR push_bit 24 (ucast (d::u8)) :: u32) :: u8) = a"
  by (rule bit_word_eqI) (auto simp: bit_simps dest: bit_u8_bound)

lemma le_byte1:
  "(ucast (drop_bit 8 (ucast (a::u8) OR push_bit 8 (ucast (b::u8)) OR push_bit 16 (ucast (c::u8))
      OR push_bit 24 (ucast (d::u8)) :: u32)) :: u8) = b"
  by (rule bit_word_eqI) (auto simp: bit_simps dest: bit_u8_bound)

lemma le_byte2:
  "(ucast (drop_bit 16 (ucast (a::u8) OR push_bit 8 (ucast (b::u8)) OR push_bit 16 (ucast (c::u8))
      OR push_bit 24 (ucast (d::u8)) :: u32)) :: u8) = c"
  by (rule bit_word_eqI) (auto simp: bit_simps dest: bit_u8_bound)

lemma le_byte3:
  "(ucast (drop_bit 24 (ucast (a::u8) OR push_bit 8 (ucast (b::u8)) OR push_bit 16 (ucast (c::u8))
      OR push_bit 24 (ucast (d::u8)) :: u32)) :: u8) = d"
  by (rule bit_word_eqI) (auto simp: bit_simps dest: bit_u8_bound)

text \<open>On either host, \<^verbatim>\<open>htonl\<close> of the loaded word is the big-endian word.\<close>

lemma htonl_load_u32:
  "htonl host (load_u32 host buf k) =
     push_bit 24 (ucast (buf ! k)) OR push_bit 16 (ucast (buf ! (k + 1)))
       OR push_bit 8 (ucast (buf ! (k + 2))) OR ucast (buf ! (k + 3))"
  by (cases host)
     (simp_all only: htonl_def load_u32_def byte_order.case le_byte0 le_byte1 le_byte2 le_byte3)

lemma be_or_plus:
  "push_bit 24 (ucast (a::u8)) OR push_bit 16 (ucast (b::u8)) OR push_bit 8 (ucast (c::u8))
     OR (ucast (d::u8) :: u32)
   = push_bit 24 (ucast a) + (push_bit 16 (ucast b) + (push_bit 8 (ucast c) + ucast d))"
proof -
  have 1: "push_bit 8 (ucast c) + (ucast d :: u32) = push_bit 8 (ucast c) OR ucast d"
    by (rule disjunctive_add) (auto simp: bit_simps dest: bit_u8_bound)
  have 2: "push_bit 16 (ucast b) + (push_bit 8 (ucast c) OR (ucast d :: u32))
         = push_bit 16 (ucast b) OR (push_bit 8 (ucast c) OR ucast d)"
    by (rule disjunctive_add) (auto simp: bit_simps dest: bit_u8_bound)
  have 3: "push_bit 24 (ucast a)
             + (push_bit 16 (ucast b) OR (push_bit 8 (ucast c) OR (ucast d :: u32)))
         = push_bit 24 (ucast a) OR (push_bit 16 (ucast b) OR (push_bit 8 (ucast c) OR ucast d))"
    by (rule disjunctive_add) (auto simp: bit_simps dest: bit_u8_bound)
  show ?thesis by (simp only: 1 2 3 or.assoc)
qed

lemma be32_less: "be32 a b c d < 2 ^ 32"
proof -
  have "unat a < 256" "unat b < 256" "unat c < 256" "unat d < 256"
    using unsigned_less[of a] unsigned_less[of b] unsigned_less[of c] unsigned_less[of d]
    by simp_all
  then show ?thesis unfolding be32_def by simp
qed

lemma unat_be_word:
  "unat (push_bit 24 (ucast (a::u8)) OR push_bit 16 (ucast (b::u8)) OR push_bit 8 (ucast (c::u8))
     OR (ucast (d::u8) :: u32)) = be32 a b c d"
proof -
  have "push_bit 24 (ucast a) + (push_bit 16 (ucast b) + (push_bit 8 (ucast c) + ucast d))
          = (word_of_nat (be32 a b c d) :: u32)"
    unfolding be32_def by (simp add: push_bit_eq_mult)
  then have "unat (push_bit 24 (ucast a) OR push_bit 16 (ucast b) OR push_bit 8 (ucast c)
               OR (ucast d :: u32)) = be32 a b c d mod 2 ^ 32"
    by (simp add: be_or_plus unat_of_nat)
  then show ?thesis using be32_less[of a b c d] by simp
qed

lemma unat_htonl_load_u32:
  "unat (htonl host (load_u32 host buf k))
     = be32 (buf ! k) (buf ! (k + 1)) (buf ! (k + 2)) (buf ! (k + 3))"
  by (simp only: htonl_load_u32 unat_be_word)

subsection \<open>Accepted datagrams\<close>

lemma recv_full: "length d = 9 \<Longrightarrow> recv (Dgram d) 9 = (9, d)"
  by simp

text \<open>
  Claim C4.  A buffer of exactly nine bytes whose byte 0 is 1 is always decoded, on a
  host of either byte order: the packet handed to the handler has version 1, its mask
  is the big-endian number made of bytes 1 to 4 and its values the big-endian number
  made of bytes 5 to 8.  Nothing else about mask or values is checked.
\<close>

theorem decode_nine_bytes:
  assumes "length d = 9" and "d ! 0 = 1"
  shows "\<exists>p. ledp_receive host (Dgram d) = Some p
           \<and> protocol_version p = 1
           \<and> unat (mask_bits p) = be32 (d ! 1) (d ! 2) (d ! 3) (d ! 4)
           \<and> unat (values_bits p) = be32 (d ! 5) (d ! 6) (d ! 7) (d ! 8)
           \<and> ledp_iteration host handler opaque (Dgram d) = handler opaque p"
proof -
  let ?p = "\<lparr> protocol_version = 1,
               mask_bits = htonl host (load_u32 host d 1),
               values_bits = htonl host (load_u32 host d 5) \<rparr>"
  have r: "ledp_receive host (Dgram d) = Some ?p"
    using assms by (simp add: ledp_receive_def PROTOCOL_VERSION_def)
  have m: "unat (mask_bits ?p) = be32 (d ! 1) (d ! 2) (d ! 3) (d ! 4)"
    using unat_htonl_load_u32[of host d 1] by (simp add: eval_nat_numeral)
  have v: "unat (values_bits ?p) = be32 (d ! 5) (d ! 6) (d ! 7) (d ! 8)"
    using unat_htonl_load_u32[of host d 5] by (simp add: eval_nat_numeral)
  have i: "ledp_iteration host handler opaque (Dgram d) = handler opaque ?p"
    by (simp add: ledp_iteration_def r)
  from r m v i show ?thesis by (intro exI[of _ ?p]) simp
qed

text \<open>The all-ones datagram is decoded: mask and values are both \<open>2 ^ 32 - 1\<close>.\<close>

theorem decode_nine_bytes_witness:
  "length [1, 255, 255, 255, 255, 255, 255, 255, 255 :: u8] = 9
   \<and> [1, 255, 255, 255, 255, 255, 255, 255, 255 :: u8] ! 0 = 1
   \<and> (\<exists>p. ledp_receive LittleEndian (Dgram [1, 255, 255, 255, 255, 255, 255, 255, 255]) = Some p
         \<and> protocol_version p = 1
         \<and> unat (mask_bits p) = 4294967295
         \<and> unat (values_bits p) = 4294967295)"
  using decode_nine_bytes[of "[1, 255, 255, 255, 255, 255, 255, 255, 255]" LittleEndian
          "\<lambda>s p. Inr s" "()"]
  by (auto simp add: be32_def)

subsection \<open>Discarded datagrams\<close>

text \<open>
  Claim C3, as the code has it.  A datagram of fewer than nine bytes, a datagram of any
  length whose first byte is not 1, and a failed \<^verbatim>\<open>recv\<close> are dropped: the handler is not
  called and the state of the backend is the one before, whatever the handler is.  A
  datagram of nine bytes or more is treated as the datagram of its first nine bytes:
  \<^verbatim>\<open>recv\<close> copies them and returns 9.  So when its first byte is 1 it is decoded, mask
  and values being the big-endian numbers of bytes 1 to 4 and 5 to 8, and handed to the
  handler, whatever follows byte 8.
\<close>

theorem datagram_discarded_or_truncated:
  "(length d < 9 \<or> d ! 0 \<noteq> 1 \<longrightarrow>
      ledp_receive host (Dgram d) = None
      \<and> ledp_iteration host handler opaque (Dgram d) = Inr opaque)
   \<and> ledp_iteration host handler opaque RecvFail = Inr opaque
   \<and> (9 \<le> length d \<longrightarrow>
        ledp_receive host (Dgram d) = ledp_receive host (Dgram (take 9 d))
        \<and> ledp_iteration host handler opaque (Dgram d)
            = ledp_iteration host handler opaque (Dgram (take 9 d)))
   \<and> (9 \<le> length d \<and> d ! 0 = 1 \<longrightarrow>
        (\<exists>p. ledp_receive host (Dgram d) = Some p
           \<and> protocol_version p = 1
           \<and> unat (mask_bits p) = be32 (d ! 1) (d ! 2) (d ! 3) (d ! 4)
           \<and> unat (values_bits p) = be32 (d ! 5) (d ! 6) (d ! 7) (d ! 8)
           \<and> ledp_iteration host handler opaque (Dgram d) = handler opaque p))"
proof -
  have a: "length d < 9 \<or> d ! 0 \<noteq> 1 \<longrightarrow> ledp_receive host (Dgram d) = None"
  proof (cases "length d < 9")
    case True
    then show ?thesis by (simp add: ledp_receive_def)
  next
    case False
    then have "take 9 d ! 0 = d ! 0" by simp
    with False show ?thesis
      by (simp add: ledp_receive_def PROTOCOL_VERSION_def Let_def)
  qed
  have b: "ledp_receive host RecvFail = None"
    by (simp add: ledp_receive_def)
  have c: "9 \<le> length d \<longrightarrow> ledp_receive host (Dgram d) = ledp_receive host (Dgram (take 9 d))"
    by (simp add: ledp_receive_def)
  have e: "9 \<le> length d \<and> d ! 0 = 1 \<longrightarrow>
        (\<exists>p. ledp_receive host (Dgram d) = Some p
           \<and> protocol_version p = 1
           \<and> unat (mask_bits p) = be32 (d ! 1) (d ! 2) (d ! 3) (d ! 4)
           \<and> unat (values_bits p) = be32 (d ! 5) (d ! 6) (d ! 7) (d ! 8))"
  proof
    assume h: "9 \<le> length d \<and> d ! 0 = 1"
    let ?r = "take 9 d"
    let ?p = "\<lparr> protocol_version = 1,
               mask_bits = htonl host (load_u32 host ?r 1),
               values_bits = htonl host (load_u32 host ?r 5) \<rparr>"
    have r: "ledp_receive host (Dgram d) = Some ?p"
      using h by (simp add: ledp_receive_def PROTOCOL_VERSION_def)
    have m: "unat (mask_bits ?p) = be32 (d ! 1) (d ! 2) (d ! 3) (d ! 4)"
      using unat_htonl_load_u32[of host ?r 1] by (simp add: eval_nat_numeral)
    have v: "unat (values_bits ?p) = be32 (d ! 5) (d ! 6) (d ! 7) (d ! 8)"
      using unat_htonl_load_u32[of host ?r 5] by (simp add: eval_nat_numeral)
    from r m v show "\<exists>p. ledp_receive host (Dgram d) = Some p
           \<and> protocol_version p = 1
           \<and> unat (mask_bits p) = be32 (d ! 1) (d ! 2) (d ! 3) (d ! 4)
           \<and> unat (values_bits p) = be32 (d ! 5) (d ! 6) (d ! 7) (d ! 8)"
      by (intro exI[of _ ?p]) simp
  qed
  from a b c e show ?thesis by (auto simp add: ledp_iteration_def)
qed

theorem datagram_discarded_or_truncated_witness:
  "(length [1, 0, 0, 0, 1, 0, 0, 0 :: u8] < 9 \<or> [1, 0, 0, 0, 1, 0, 0, 0 :: u8] ! 0 \<noteq> 1)
   \<and> ledp_receive BigEndian (Dgram [1, 0, 0, 0, 1, 0, 0, 0]) = None
   \<and> (length [2, 255, 255, 255, 255, 255, 255, 255, 255 :: u8] < 9
        \<or> [2, 255, 255, 255, 255, 255, 255, 255, 255 :: u8] ! 0 \<noteq> 1)
   \<and> ledp_receive BigEndian (Dgram [2, 255, 255, 255, 255, 255, 255, 255, 255]) = None
   \<and> 9 \<le> length [1, 0, 0, 0, 1, 0, 0, 0, 1, 170 :: u8]
   \<and> [1, 0, 0, 0, 1, 0, 0, 0, 1, 170 :: u8] ! 0 = 1
   \<and> ledp_receive BigEndian (Dgram [1, 0, 0, 0, 1, 0, 0, 0, 1, 170])
       = ledp_receive BigEndian (Dgram (take 9 [1, 0, 0, 0, 1, 0, 0, 0, 1, 170]))
   \<and> (\<exists>p. ledp_receive BigEndian (Dgram [1, 0, 0, 0, 1, 0, 0, 0, 1, 170]) = Some p
         \<and> unat (mask_bits p) = 1 \<and> unat (values_bits p) = 1)"
proof -
  have A: "ledp_receive BigEndian (Dgram [1, 0, 0, 0, 1, 0, 0, 0]) = None"
    using datagram_discarded_or_truncated[of "[1, 0, 0, 0, 1, 0, 0, 0]" BigEndian
          "\<lambda>s p. Inr s" "()"] by simp
  have B: "ledp_receive BigEndian (Dgram [2, 255, 255, 255, 255, 255, 255, 255, 255]) = None"
    using datagram_discarded_or_truncated[of "[2, 255, 255, 255, 255, 255, 255, 255, 255]"
          BigEndian "\<lambda>s p. Inr s" "()"] by simp
  note long = datagram_discarded_or_truncated[of "[1, 0, 0, 0, 1, 0, 0, 0, 1, 170]" BigEndian
          "\<lambda>s p. Inr s" "()"]
  have C: "ledp_receive BigEndian (Dgram [1, 0, 0, 0, 1, 0, 0, 0, 1, 170])
       = ledp_receive BigEndian (Dgram (take 9 [1, 0, 0, 0, 1, 0, 0, 0, 1, 170]))"
    using long by simp
  have D: "\<exists>p. ledp_receive BigEndian (Dgram [1, 0, 0, 0, 1, 0, 0, 0, 1, 170]) = Some p
         \<and> unat (mask_bits p) = 1 \<and> unat (values_bits p) = 1"
    using long[THEN conjunct2, THEN conjunct2, THEN conjunct2] by (auto simp add: be32_def)
  from A B C D show ?thesis by (intro conjI) simp_all
qed

text \<open>
  Claim C3 as it is stated fails for datagrams that are too long.  A datagram of ten
  bytes whose first byte is 1 is not discarded: \<^verbatim>\<open>recv\<close> copies its
  first nine bytes and returns 9, and the packet decoded from them goes to the handler,
  here the one of the Wiimote server, which turns on LED 0.
\<close>

theorem long_datagram_accepted:
  "length [1, 0, 0, 0, 1, 0, 0, 0, 1, 170 :: u8] \<noteq> 9
   \<and> ledp_receive LittleEndian (Dgram [1, 0, 0, 0, 1, 0, 0, 0, 1, 170])
       = Some \<lparr> protocol_version = 1, mask_bits = 1, values_bits = 1 \<rparr>
   \<and> ledp_iteration LittleEndian wiimote_handler
         (wiimote_initial \<lparr> led_register = 0, sent = [], link_faults = [] \<rparr>)
         (Dgram [1, 0, 0, 0, 1, 0, 0, 0, 1, 170])
       = Inr \<lparr> wiimote = \<lparr> led_register = 1, sent = [1], link_faults = [] \<rparr>, leds = 1,
               wiimote_stderr = [] \<rparr>"
proof -
  have r: "ledp_receive LittleEndian (Dgram [1, 0, 0, 0, 1, 0, 0, 0, 1, 170])
       = Some \<lparr> protocol_version = 1, mask_bits = 1, values_bits = 1 \<rparr>"
    by (simp add: ledp_receive_def PROTOCOL_VERSION_def htonl_def load_u32_def)
  have "wiimote_flags 1 = 1"
    by (simp add: wiimote_flags_def led_flags_def CWIID_LED1_ON_def upt_conv_Cons)
  then have "wiimote_handler (wiimote_initial \<lparr> led_register = 0, sent = [], link_faults = [] \<rparr>)
          \<lparr> protocol_version = 1, mask_bits = 1, values_bits = 1 \<rparr>
       = Inr \<lparr> wiimote = \<lparr> led_register = 1, sent = [1], link_faults = [] \<rparr>, leds = 1,
               wiimote_stderr = [] \<rparr>"
    by (simp add: wiimote_handler_def wiimote_handle_message_def wiimote_initial_def
        cwiid_set_led_def)
  with r show ?thesis by (simp add: ledp_iteration_def)
qed


section \<open>Properties of the Wiimote server\<close>

subsection \<open>The flags written\<close>

lemma led_flags_nth: "i < 4 \<Longrightarrow> led_flags ! i = push_bit i 1"
proof -
  assume "i < 4"
  then consider "i = 0" | "i = 1" | "i = 2" | "i = 3" by linarith
  then show ?thesis
    by cases (simp_all add: led_flags_def CWIID_LED1_ON_def CWIID_LED2_ON_def
        CWIID_LED3_ON_def CWIID_LED4_ON_def)
qed

lemma take_bit_Suc_or:
  "take_bit (Suc k) (l::u32) = take_bit k l OR push_bit k (of_bool (bit l k))"
  by (rule bit_word_eqI) (auto simp: bit_simps less_Suc_eq)

text \<open>The loop, stopped after \<open>k\<close> turns, has copied the \<open>k\<close> lowest bits of the shadow.\<close>

lemma flags_loop:
  "k \<le> 4 \<Longrightarrow>
   fold (\<lambda>i flags. if l AND push_bit i 1 \<noteq> 0 then flags OR led_flags ! i else flags) [0..<k] 0
     = take_bit k l"
proof (induction k)
  case 0
  show ?case by simp
next
  case (Suc k)
  then have "led_flags ! k = push_bit k 1" by (simp add: led_flags_nth)
  with Suc show ?case by (simp add: and_exp_eq_0_iff_not_bit take_bit_Suc_or)
qed

lemma wiimote_flags_eq: "wiimote_flags l = take_bit 4 l"
  unfolding wiimote_flags_def by (rule flags_loop) simp


subsection \<open>One command\<close>

lemma leds_handle_message:
  "leds (wiimote_handle_message d p) = leds d AND NOT (mask_bits p) OR values_bits p"
  by (simp add: wiimote_handle_message_def cwiid_set_led_def Let_def
      split: list.split prod.split)

lemma sent_handle_message:
  "sent (wiimote (wiimote_handle_message d p))
     = sent (wiimote d) @ [ucast (wiimote_flags (leds (wiimote_handle_message d p)))]"
  by (simp add: wiimote_handle_message_def cwiid_set_led_def Let_def split: list.split)

lemma bit_leds_handle_message:
  "bit (leds (wiimote_handle_message d p)) i
     = (bit (values_bits p) i \<or> (bit (leds d) i \<and> \<not> bit (mask_bits p) i))"
  by (auto simp add: leds_handle_message bit_simps dest: bit_imp_le_length)


lemma link_faults_handle_message:
  "link_faults (wiimote (wiimote_handle_message d p)) = tl (link_faults (wiimote d))"
  by (simp add: wiimote_handle_message_def cwiid_set_led_def Let_def split: list.split)

lemma led_register_handle_message:
  "\<not> fails_at (link_faults (wiimote d)) 0 \<Longrightarrow>
     led_register (wiimote (wiimote_handle_message d p))
       = ucast (wiimote_flags (leds (wiimote_handle_message d p)))"
  by (cases "link_faults (wiimote d)")
     (simp_all add: wiimote_handle_message_def cwiid_set_led_def Let_def fails_at_def)


lemma leds_sound_link: "leds (sound_link d) = leds d"
  by (simp add: sound_link_def)

lemma bit_contract_shadow:
  "bit (contract_shadow l p) i = (if bit (mask_bits p) i then bit (values_bits p) i else bit l i)"
  by (auto simp add: contract_shadow_def bit_simps dest: bit_imp_le_length)

text \<open>
  The shadow follows the contract for every command whose values have no bit outside
  its mask.
\<close>

lemma wiimote_contract_when_values_masked:
  assumes "values_bits p AND NOT (mask_bits p) = 0"
  shows "leds (wiimote_handle_message d p) = contract_shadow (leds d) p"
proof -
  have "values_bits p = (values_bits p AND mask_bits p) OR (values_bits p AND NOT (mask_bits p))"
    by (rule bit_word_eqI) (auto simp: bit_simps)
  with assms have "values_bits p = values_bits p AND mask_bits p" by simp
  then show ?thesis by (simp add: leds_handle_message contract_shadow_def)
qed

text \<open>
  Claim C1 at the Wiimote server.  The claim asks that a LED whose mask bit is 0 keeps
  its state.  With the shadow all off, the command with mask \<open>0\<close> and values \<open>1\<close>
  addresses no LED, and yet LED 0 is on afterwards, in the shadow and on the remote:
  \<^verbatim>\<open>data->leds |= packet->values\<close> takes the values without the mask.  The two other
  servers test the mask bit first and leave such a LED alone (lemmas
  \<open>sysfs_unaddressed_unchanged\<close> and \<open>airos_unaddressed_unchanged\<close> below).
\<close>

theorem wiimote_unaddressed_led_changes:
  "\<not> bit (mask_bits \<lparr> protocol_version = 1, mask_bits = 0, values_bits = 1 \<rparr>) 0
   \<and> \<not> bit (led_register \<lparr> led_register = 0, sent = [], link_faults = [] \<rparr>) 0
   \<and> \<not> bit (leds (wiimote_initial \<lparr> led_register = 0, sent = [], link_faults = [] \<rparr>)) 0
   \<and> bit (led_register (wiimote (wiimote_handle_message
         (wiimote_initial \<lparr> led_register = 0, sent = [], link_faults = [] \<rparr>)
         \<lparr> protocol_version = 1, mask_bits = 0, values_bits = 1 \<rparr>))) 0
   \<and> bit (leds (wiimote_handle_message
         (wiimote_initial \<lparr> led_register = 0, sent = [], link_faults = [] \<rparr>)
         \<lparr> protocol_version = 1, mask_bits = 0, values_bits = 1 \<rparr>)) 0"
  by (simp add: wiimote_initial_def wiimote_handle_message_def cwiid_set_led_def wiimote_flags_eq)

text \<open>
  Claim C5 at a failing input.  The claim asks for the shadow of the contract and then
  one write of its four low bits.  For the command with mask \<open>2\<close> and values \<open>3\<close> on a
  shadow that is all off, the contract gives the shadow \<open>2\<close>; the code makes it \<open>3\<close> and
  writes the flags \<open>3\<close>.  The write itself is as claimed: one call, with the four low
  bits of the shadow (lemmas \<open>sent_handle_message\<close> and \<open>bit_wiimote_flags\<close>).
\<close>

theorem wiimote_shadow_not_per_contract:
  "leds (wiimote_handle_message
      (wiimote_initial \<lparr> led_register = 0, sent = [], link_faults = [] \<rparr>)
      \<lparr> protocol_version = 1, mask_bits = 2, values_bits = 3 \<rparr>) = 3
   \<and> contract_shadow (leds (wiimote_initial \<lparr> led_register = 0, sent = [], link_faults = [] \<rparr>))
      \<lparr> protocol_version = 1, mask_bits = 2, values_bits = 3 \<rparr> = 2
   \<and> sent (wiimote (wiimote_handle_message
      (wiimote_initial \<lparr> led_register = 0, sent = [], link_faults = [] \<rparr>)
      \<lparr> protocol_version = 1, mask_bits = 2, values_bits = 3 \<rparr>)) = [3]"
  by (simp add: wiimote_initial_def wiimote_handle_message_def cwiid_set_led_def wiimote_flags_eq
      contract_shadow_def)

subsection \<open>Runs\<close>

lemma wiimote_run_Nil: "wiimote_run d [] = d"
  by (simp add: wiimote_run_def)

lemma wiimote_run_Cons: "wiimote_run d (p # ps) = wiimote_run (wiimote_handle_message d p) ps"
  by (simp add: wiimote_run_def)

lemma apply_all_wiimote: "apply_all wiimote_handler d ps = Inr (wiimote_run d ps)"
  by (induction ps arbitrary: d) (simp_all add: wiimote_handler_def wiimote_run_def)

lemma ledp_serve_apply_all:
  "ledp_serve host handler opaque evs
     = apply_all handler opaque (List.map_filter (ledp_receive host) evs)"
  by (induction evs arbitrary: opaque)
     (auto simp add: ledp_iteration_def List.map_filter_simps split: option.splits sum.splits)

text \<open>
  A failed write does not stop the server.  Let the write of a command \<open>p\<close> fail and the
  next one succeed: the loop returns a state, never a failure; the failure is printed;
  the remote keeps its register; the shadow is the one that \<open>p\<close> gives on a link without
  failures; and after the next command \<open>q\<close> the remote holds the four low bits of the
  shadow after \<open>p\<close> and \<open>q\<close>, as it does on a link without failures.
\<close>

lemma wiimote_failed_write_continues:
  assumes "link_faults (wiimote d) = True # False # rest"
  shows "(\<exists>d'. ledp_serve host wiimote_handler d evs = Inr d')
       \<and> wiimote_stderr (wiimote_handle_message d p)
           = wiimote_stderr d @ [''Couldn't send command to Wiimote'' @ [newline]]
       \<and> led_register (wiimote (wiimote_handle_message d p)) = led_register (wiimote d)
       \<and> leds (wiimote_handle_message d p) = leds (wiimote_handle_message (sound_link d) p)
       \<and> leds (wiimote_handle_message d p) = leds d AND NOT (mask_bits p) OR values_bits p
       \<and> led_register (wiimote (wiimote_run d [p, q]))
           = led_register (wiimote (wiimote_run (sound_link d) [p, q]))
       \<and> led_register (wiimote (wiimote_run d [p, q]))
           = ucast (wiimote_flags (leds (wiimote_run d [p, q])))"
proof -
  have 1: "\<exists>d'. ledp_serve host wiimote_handler d evs = Inr d'"
    by (simp add: ledp_serve_apply_all apply_all_wiimote)
  have 2: "led_register (wiimote (wiimote_handle_message d p)) = led_register (wiimote d)"
    using assms by (simp add: wiimote_handle_message_def cwiid_set_led_def Let_def)
  have 3: "wiimote_stderr (wiimote_handle_message d p)
           = wiimote_stderr d @ [''Couldn't send command to Wiimote'' @ [newline]]"
    using assms by (simp add: wiimote_handle_message_def cwiid_set_led_def Let_def)
  have "\<not> fails_at (link_faults (wiimote (wiimote_handle_message d p))) 0"
    using assms by (simp add: link_faults_handle_message fails_at_def)
  from led_register_handle_message[OF this, of q]
  have 4: "led_register (wiimote (wiimote_run d [p, q]))
           = ucast (wiimote_flags (leds (wiimote_run d [p, q])))"
    by (simp add: wiimote_run_Cons wiimote_run_Nil)
  have "\<not> fails_at (link_faults (wiimote (wiimote_handle_message (sound_link d) p))) 0"
    by (simp add: link_faults_handle_message fails_at_def sound_link_def)
  from led_register_handle_message[OF this, of q]
  have 5: "led_register (wiimote (wiimote_run (sound_link d) [p, q]))
           = ucast (wiimote_flags (leds (wiimote_run d [p, q])))"
    by (simp add: wiimote_run_Cons wiimote_run_Nil leds_handle_message leds_sound_link)
  from 1 2 3 4 5 show ?thesis by (simp add: leds_handle_message leds_sound_link)
qed

text \<open>
  Claim C6 at a failing input.  The claim asks that after a failed write the shadow is
  the state the command intends, so that the next successful write reflects the
  commands applied so far.  Let the first write fail and the second succeed, and let
  the server, with all LEDs off, receive the datagram with mask \<open>0\<close> and values \<open>1\<close>, then
  the one with mask \<open>2\<close> and values \<open>2\<close>.  The failure is printed and the loop goes on, as
  claimed.  But the first command addresses no LED and the contract of section 4.3
  leaves the shadow at \<open>0\<close>, while the code makes it \<open>1\<close>; the second write then sends
  the flags \<open>3\<close>, where the two commands ask for \<open>2\<close>: LED 0 is lit though no command
  addressed it.  The shadow follows the contract only for commands whose values have no
  bit outside the mask (lemma \<open>wiimote_contract_when_values_masked\<close>).
\<close>

theorem wiimote_failed_write_shadow_off_contract:
  "ledp_serve LittleEndian wiimote_handler
      (wiimote_initial \<lparr> led_register = 0, sent = [], link_faults = [True, False] \<rparr>)
      [Dgram [1, 0, 0, 0, 0, 0, 0, 0, 1]]
     = Inr \<lparr> wiimote = \<lparr> led_register = 0, sent = [1], link_faults = [False] \<rparr>, leds = 1,
             wiimote_stderr = [''Couldn't send command to Wiimote'' @ [newline]] \<rparr>
   \<and> contract_shadow 0 \<lparr> protocol_version = 1, mask_bits = 0, values_bits = 1 \<rparr> = 0
   \<and> ledp_serve LittleEndian wiimote_handler
      (wiimote_initial \<lparr> led_register = 0, sent = [], link_faults = [True, False] \<rparr>)
      [Dgram [1, 0, 0, 0, 0, 0, 0, 0, 1], Dgram [1, 0, 0, 0, 2, 0, 0, 0, 2]]
     = Inr \<lparr> wiimote = \<lparr> led_register = 3, sent = [1, 3], link_faults = [] \<rparr>, leds = 3,
             wiimote_stderr = [''Couldn't send command to Wiimote'' @ [newline]] \<rparr>
   \<and> contract_shadow
        (contract_shadow 0 \<lparr> protocol_version = 1, mask_bits = 0, values_bits = 1 \<rparr>)
        \<lparr> protocol_version = 1, mask_bits = 2, values_bits = 2 \<rparr> = 2"
proof -
  have r1: "ledp_receive LittleEndian (Dgram [1, 0, 0, 0, 0, 0, 0, 0, 1])
       = Some \<lparr> protocol_version = 1, mask_bits = 0, values_bits = 1 \<rparr>"
    by (simp add: ledp_receive_def PROTOCOL_VERSION_def htonl_def load_u32_def)
  have r2: "ledp_receive LittleEndian (Dgram [1, 0, 0, 0, 2, 0, 0, 0, 2])
       = Some \<lparr> protocol_version = 1, mask_bits = 2, values_bits = 2 \<rparr>"
    by (simp add: ledp_receive_def PROTOCOL_VERSION_def htonl_def load_u32_def)
  show ?thesis
    by (simp add: ledp_iteration_def r1 r2 wiimote_handler_def wiimote_handle_message_def
        wiimote_initial_def cwiid_set_led_def wiimote_flags_eq contract_shadow_def)
qed

subsection \<open>What the remote can learn\<close>

lemma take_bit_4_update:
  assumes "take_bit 4 (l1::u32) = take_bit 4 l2" and "take_bit 4 (m1::u32) = take_bit 4 m2"
      and "take_bit 4 (v1::u32) = take_bit 4 v2"
  shows "take_bit 4 (l1 AND NOT m1 OR v1) = take_bit 4 (l2 AND NOT m2 OR v2)"
proof -
  have "take_bit 4 (l1 AND NOT m1 OR v1)
          = take_bit 4 l1 AND NOT (take_bit 4 m1) OR take_bit 4 v1"
    by (rule bit_word_eqI) (auto simp: bit_simps)
  moreover have "take_bit 4 (l2 AND NOT m2 OR v2)
          = take_bit 4 l2 AND NOT (take_bit 4 m2) OR take_bit 4 v2"
    by (rule bit_word_eqI) (auto simp: bit_simps)
  ultimately show ?thesis using assms by simp
qed

lemma wiimote_run_low:
  assumes "list_all2 agree_low ps qs"
      and "take_bit 4 (leds d1) = take_bit 4 (leds d2)"
      and "sent (wiimote d1) = sent (wiimote d2)"
    shows "sent (wiimote (wiimote_run d1 ps)) = sent (wiimote (wiimote_run d2 qs))
           \<and> take_bit 4 (leds (wiimote_run d1 ps)) = take_bit 4 (leds (wiimote_run d2 qs))"
  using assms
proof (induction ps qs arbitrary: d1 d2 rule: list_all2_induct)
  case Nil
  then show ?case by (simp add: wiimote_run_def)
next
  case (Cons p ps q qs)
  have l: "take_bit 4 (leds (wiimote_handle_message d1 p))
             = take_bit 4 (leds (wiimote_handle_message d2 q))"
    using Cons.hyps(1) Cons.prems(1) unfolding leds_handle_message agree_low_def
    by (intro take_bit_4_update) simp_all
  have s: "sent (wiimote (wiimote_handle_message d1 p))
             = sent (wiimote (wiimote_handle_message d2 q))"
    using l Cons.prems(2) by (simp add: sent_handle_message wiimote_flags_eq)
  from Cons.IH[OF l s] show ?case by (simp add: wiimote_run_def)
qed

lemma wiimote_run_bit:
  assumes "list_all2 (agree_bit i) ps qs"
      and "bit (leds d1) i = bit (leds d2) i"
    shows "bit (leds (wiimote_run d1 ps)) i = bit (leds (wiimote_run d2 qs)) i"
  using assms
proof (induction ps qs arbitrary: d1 d2 rule: list_all2_induct)
  case Nil
  then show ?case by (simp add: wiimote_run_def)
next
  case (Cons p ps q qs)
  have "bit (leds (wiimote_handle_message d1 p)) i = bit (leds (wiimote_handle_message d2 q)) i"
    using Cons.hyps(1) Cons.prems by (simp add: bit_leds_handle_message agree_bit_def)
  from Cons.IH[OF this] show ?case by (simp add: wiimote_run_def)
qed

text \<open>
  The flags written are a function of bits 0 to 3 of the shadow.  Bit \<open>i\<close> of the shadow
  after a run is a function of bit \<open>i\<close> of the shadow before and of bits \<open>i\<close> of the masks
  and values of its commands.  Hence two runs whose commands agree, one by one, on bits
  0 to 3 of mask and of values, from shadows that agree on bits 0 to 3, pass the same
  sequence of flags to \<^verbatim>\<open>cwiid_set_led\<close>, whatever their other bits and whichever writes
  fail.  A command writes the flags of the shadow as it was when its mask and its
  values are both zero on bits 0 to 3; a zero mask alone does not suffice.
\<close>

lemma wiimote_low_bits_noninterference:
  "wiimote_flags l = wiimote_flags (take_bit 4 l)
   \<and> (list_all2 (agree_bit i) ps qs \<and> bit (leds d1) i = bit (leds d2) i
        \<longrightarrow> bit (leds (wiimote_run d1 ps)) i = bit (leds (wiimote_run d2 qs)) i)
   \<and> (list_all2 agree_low ps qs \<and> take_bit 4 (leds d1) = take_bit 4 (leds d2)
        \<and> sent (wiimote d1) = sent (wiimote d2)
        \<longrightarrow> sent (wiimote (wiimote_run d1 ps)) = sent (wiimote (wiimote_run d2 qs)))
   \<and> (take_bit 4 (mask_bits p) = 0 \<and> take_bit 4 (values_bits p) = 0
        \<longrightarrow> sent (wiimote (wiimote_handle_message d1 p))
              = sent (wiimote d1) @ [ucast (wiimote_flags (leds d1))])"
proof -
  have "take_bit 4 (mask_bits p) = 0 \<and> take_bit 4 (values_bits p) = 0
        \<longrightarrow> take_bit 4 (leds d1 AND NOT (mask_bits p) OR values_bits p) = take_bit 4 (leds d1)"
    using take_bit_4_update[of "leds d1" "leds d1" "mask_bits p" 0 "values_bits p" 0] by simp
  then show ?thesis
    using wiimote_run_low[of ps qs d1 d2] wiimote_run_bit[of i ps qs d1 d2]
    by (simp add: wiimote_flags_eq sent_handle_message leds_handle_message)
qed

text \<open>
  Claim C9 at a failing input.  The claim ends on commands that address only indices 4
  to 31: they are to change nothing of what is written to the device.  After a command
  that turns the four LEDs off (flags \<open>0\<close> written), the command with mask \<open>0xF0\<close> and
  values \<open>0x01\<close> addresses indices 4 to 7 only, and the flags written are \<open>1\<close>: LED 0 of
  the remote goes on.  The values are taken without the mask, as in claim C1.
\<close>

theorem wiimote_high_command_changes_flags:
  "take_bit 4 (mask_bits \<lparr> protocol_version = 1, mask_bits = 0xF0, values_bits = 0x01 \<rparr>) = 0
   \<and> sent (wiimote (wiimote_run
         (wiimote_initial \<lparr> led_register = 0, sent = [], link_faults = [] \<rparr>)
         [\<lparr> protocol_version = 1, mask_bits = 0x0F, values_bits = 0 \<rparr>])) = [0]
   \<and> sent (wiimote (wiimote_run
         (wiimote_initial \<lparr> led_register = 0, sent = [], link_faults = [] \<rparr>)
         [\<lparr> protocol_version = 1, mask_bits = 0x0F, values_bits = 0 \<rparr>,
          \<lparr> protocol_version = 1, mask_bits = 0xF0, values_bits = 0x01 \<rparr>])) = [0, 1]
   \<and> led_register (wiimote (wiimote_run
         (wiimote_initial \<lparr> led_register = 0, sent = [], link_faults = [] \<rparr>)
         [\<lparr> protocol_version = 1, mask_bits = 0x0F, values_bits = 0 \<rparr>,
          \<lparr> protocol_version = 1, mask_bits = 0xF0, values_bits = 0x01 \<rparr>])) = 1"
  by (simp add: wiimote_run_Nil wiimote_run_Cons wiimote_initial_def wiimote_handle_message_def
      cwiid_set_led_def wiimote_flags_eq)

section \<open>Properties of the AirOS server\<close>

subsection \<open>The text of one line\<close>

lemma dec_0: "dec 0 = ''0''"
  by (subst dec.simps) (simp add: digit_char_def)

lemma dec_1: "dec (Suc 0) = ''1''"
  by (subst dec.simps) (simp add: digit_char_def)

lemma length_dec: "n < 100 \<Longrightarrow> length (dec n) = (if n < 10 then 1 else 2)"
proof (cases "n < 10")
  case True
  then show ?thesis by (subst dec.simps) simp
next
  case False
  assume "n < 100"
  then have "n div 10 < 10" by simp
  with False show ?thesis by (subst dec.simps, subst dec.simps) simp
qed

text \<open>What \<^verbatim>\<open>sprintf\<close> produces for an index is the line the specification asks for.\<close>

lemma airos_format_line:
  "airos_format i (airos_value p i) (airos_value p i) = airos_line p i"
  by (simp add: airos_format_def airos_value_def airos_line_def fmt_u_def fmt_d_def
      and_exp_eq_0_iff_not_bit dec_0 dec_1)

lemma length_airos_line: "i < 100 \<Longrightarrow> length (airos_line p i) = (if i < 10 then 6 else 7)"
  by (simp add: airos_line_def length_dec)

subsection \<open>The text of all lines\<close>

lemma airos_lines_step:
  "i < 32 \<Longrightarrow> airos_lines p i =
     (if bit (mask_bits p) i then airos_line p i # airos_lines p (Suc i)
      else airos_lines p (Suc i))"
  by (simp add: airos_lines_def upt_conv_Cons)

lemma airos_lines_end: "32 \<le> i \<Longrightarrow> airos_lines p i = []"
  by (simp add: airos_lines_def)

lemma length_airos_lines:
  "i \<le> 32 \<Longrightarrow> airos_bound i + length (concat (airos_lines p i)) \<le> 214"
proof (induction "32 - i" arbitrary: i)
  case 0
  then show ?case by (simp add: airos_lines_end airos_bound_def)
next
  case (Suc k)
  then have i: "i < 32" and k: "k = 32 - Suc i" by simp_all
  from Suc.hyps(1)[OF k] i
  have IH: "airos_bound (Suc i) + length (concat (airos_lines p (Suc i))) \<le> 214" by simp
  have "airos_bound i + length (airos_line p i) \<le> airos_bound (Suc i)"
    using i unfolding airos_bound_def by (simp add: length_airos_line; arith)
  moreover have "airos_bound i \<le> airos_bound (Suc i)"
    unfolding airos_bound_def by (simp; arith)
  ultimately show ?case using IH i by (simp add: airos_lines_step)
qed

subsection \<open>The loop\<close>

lemma sprintf_at_fits:
  assumes "off + length text + 1 \<le> length buf"
  shows "\<exists>buf'. sprintf_at buf off text = Inr buf' \<and> length buf' = length buf
            \<and> take (off + length text) buf' = take off buf @ text
            \<and> buf' ! (off + length text) = CHR 0x00"
proof -
  let ?b = "take off buf @ text @ [CHR 0x00] @ drop (off + length text + 1) buf"
  have "sprintf_at buf off text = Inr ?b" using assms by (simp add: sprintf_at_def)
  moreover have "length ?b = length buf" using assms by simp
  moreover have "take (off + length text) ?b = take off buf @ text" using assms by simp
  moreover have "?b ! (off + length text) = CHR 0x00" using assms by (simp add: nth_append)
  ultimately show ?thesis by blast
qed

text \<open>
  The loop from index \<open>i\<close>, entered with \<open>n\<close> bytes of text in the array, returns with
  the lines of the indices from \<open>i\<close> appended, provided they fit into 214 bytes; the
  array is never overrun.
\<close>

lemma airos_loop_result:
  assumes "length commands = 224"
      and "n + length (concat (airos_lines p i)) \<le> 214"
  shows "\<exists>commands'.
           airos_loop p i commands n = Inr (commands', n + length (concat (airos_lines p i)))
           \<and> length commands' = 224
           \<and> take (n + length (concat (airos_lines p i))) commands'
               = take n commands @ concat (airos_lines p i)"
  using assms
proof (induction p i commands n rule: airos_loop.induct)
  case (1 p i commands n)
  show ?case
  proof (cases "i < 32")
    case False
    then show ?thesis using 1(3)
      by (subst airos_loop.simps) (simp add: airos_lines_end)
  next
    case i: True
    show ?thesis
    proof (cases "bit (mask_bits p) i")
      case False
      then have na: "\<not> airos_addressed p i"
        by (simp add: airos_addressed_def and_exp_eq_0_iff_not_bit)
      have ls: "airos_lines p i = airos_lines p (Suc i)"
        using i False by (simp add: airos_lines_step)
      from "1.IH"(1)[OF i na "1.prems"(1)] "1.prems"(2) ls
      show ?thesis using i na by (subst airos_loop.simps) simp
    next
      case True
      then have a: "\<not> \<not> airos_addressed p i"
        by (simp add: airos_addressed_def and_exp_eq_0_iff_not_bit)
      let ?t = "airos_line p i"
      have ls: "airos_lines p i = ?t # airos_lines p (Suc i)"
        using i True by (simp add: airos_lines_step)
      have fit: "n + length ?t + 1 \<le> length commands" using "1.prems" ls by simp
      from sprintf_at_fits[OF fit] obtain c' where
        c': "sprintf_at commands n ?t = Inr c'" "length c' = 224"
            "take (n + length ?t) c' = take n commands @ ?t"
        using "1.prems"(1) by auto
      have b: "n + length ?t + length (concat (airos_lines p (Suc i))) \<le> 214"
        using "1.prems"(2) ls by simp
      from "1.IH"(2)[OF i a, of c'] c' b
      obtain c'' where c'': "airos_loop p (Suc i) c' (n + length ?t)
                = Inr (c'', n + length ?t + length (concat (airos_lines p (Suc i))))"
            "length c'' = 224"
            "take (n + length ?t + length (concat (airos_lines p (Suc i)))) c''
               = take (n + length ?t) c' @ concat (airos_lines p (Suc i))"
        by (auto simp add: airos_format_line)
      show ?thesis using i a c' c'' ls
        by (subst airos_loop.simps) (simp add: airos_format_line add.assoc)
    qed
  qed
qed

lemma airos_loop_from_0:
  assumes "length c = 224"
  shows "\<exists>c'. airos_loop p 0 c 0 = Inr (c', length (concat (airos_lines p 0)))
           \<and> length c' = 224
           \<and> take (length (concat (airos_lines p 0))) c' = concat (airos_lines p 0)"
  using airos_loop_result[of c 0 p 0] length_airos_lines[of 0 p] assms
  by (simp add: airos_bound_def)

subsection \<open>The write\<close>

lemma sys_write_ok:
  "\<not> next_write_fails f \<Longrightarrow>
     fst (sys_write f buf n) = int n
     \<and> writes (snd (sys_write f buf n)) = writes f @ [take n buf]"
  by (cases "write_faults f") (simp_all add: sys_write_def next_write_fails_def)

lemma sys_write_fails:
  "next_write_fails f \<Longrightarrow> fst (sys_write f buf n) = -1"
  by (cases "write_faults f") (simp_all add: sys_write_def next_write_fails_def)

lemma airos_handle_message_fails:
  assumes "airos_loop p 0 (commands_mem d) 0 = Inr (c, n)" and "next_write_fails (control_file d)"
  shows "airos_handle_message d p = Inl AssertionFailed"
  using sys_write_fails[OF assms(2), of c n] assms(1)
  by (cases "sys_write (control_file d) c n") (simp add: airos_handle_message_def)

lemma airos_handle_message_ok:
  assumes "airos_loop p 0 (commands_mem d) 0 = Inr (c, n)"
      and "\<not> next_write_fails (control_file d)"
  shows "\<exists>d'. airos_handle_message d p = Inr d'
           \<and> writes (control_file d') = writes (control_file d) @ [take n c]
           \<and> commands_mem d' = c \<and> control_fd d' = control_fd d"
  using sys_write_ok[OF assms(2), of c n] assms(1)
  by (cases "sys_write (control_file d) c n") (simp add: airos_handle_message_def)

text \<open>
  Claim C7.  For every command, \<^verbatim>\<open>handle_message\<close> of the AirOS server makes one call
  of \<^verbatim>\<open>write\<close>.  Its data is the concatenation, in increasing order of the index, of
  one line for each index from 0 to 31 whose mask bit is set and of nothing for the
  others; the line of index \<open>i\<close> is the pin \<open>i\<close> followed twice by the bit \<open>i\<close> of the
  values.  (Should the call fail, the \<^verbatim>\<open>assert\<close> ends the process.)
\<close>

theorem airos_one_write_of_lines:
  assumes "length (commands_mem d) = 224"
  shows "(next_write_fails (control_file d) \<longrightarrow> airos_handle_message d p = Inl AssertionFailed)
       \<and> (\<not> next_write_fails (control_file d) \<longrightarrow>
            (\<exists>d'. airos_handle_message d p = Inr d'
               \<and> writes (control_file d')
                   = writes (control_file d)
                     @ [concat (map (airos_line p) (filter (\<lambda>i. bit (mask_bits p) i) [0..<32]))]
               \<and> length (commands_mem d') = 224))"
proof -
  let ?text = "concat (airos_lines p 0)"
  from airos_loop_from_0[OF assms, of p] obtain c' where
    c': "airos_loop p 0 (commands_mem d) 0 = Inr (c', length ?text)"
        "length c' = 224" "take (length ?text) c' = ?text"
    by blast
  have f: "next_write_fails (control_file d) \<longrightarrow> airos_handle_message d p = Inl AssertionFailed"
    using airos_handle_message_fails[OF c'(1)] by simp
  have s: "\<not> next_write_fails (control_file d) \<longrightarrow>
            (\<exists>d'. airos_handle_message d p = Inr d'
               \<and> writes (control_file d') = writes (control_file d) @ [?text]
               \<and> length (commands_mem d') = 224)"
    using airos_handle_message_ok[OF c'(1)] c'(2,3) by auto
  from f s show ?thesis by (simp add: airos_lines_def)
qed

lemma airos_pin_5_on:
  "concat (map (airos_line \<lparr> protocol_version = 1, mask_bits = 0x20, values_bits = 0x20 \<rparr>)
     (filter (\<lambda>i. bit (mask_bits \<lparr> protocol_version = 1, mask_bits = 0x20, values_bits = 0x20 \<rparr>) i)
        [0..<32]))
   = ''5 1 1'' @ [newline]"
  by code_simp

text \<open>The example of the source's header: pin 5 is turned on by the line \<open>5 1 1\<close>.\<close>

theorem airos_one_write_of_lines_witness:
  "length (commands_mem \<lparr> control_fd = 3, control_file = \<lparr> writes = [], write_faults = [] \<rparr>,
                          commands_mem = replicate 224 (CHR ''?'') \<rparr>) = 224
   \<and> \<not> next_write_fails \<lparr> writes = [], write_faults = [] \<rparr>
   \<and> (\<exists>d'. airos_handle_message
              \<lparr> control_fd = 3, control_file = \<lparr> writes = [], write_faults = [] \<rparr>,
                commands_mem = replicate 224 (CHR ''?'') \<rparr>
              \<lparr> protocol_version = 1, mask_bits = 0x20, values_bits = 0x20 \<rparr> = Inr d'
          \<and> writes (control_file d') = [''5 1 1'' @ [newline]])
   \<and> next_write_fails \<lparr> writes = [], write_faults = [True] \<rparr>
   \<and> airos_handle_message
         \<lparr> control_fd = 3, control_file = \<lparr> writes = [], write_faults = [True] \<rparr>,
           commands_mem = replicate 224 (CHR ''?'') \<rparr>
         \<lparr> protocol_version = 1, mask_bits = 0x20, values_bits = 0x20 \<rparr> = Inl AssertionFailed"
  using airos_one_write_of_lines[of
      "\<lparr> control_fd = 3, control_file = \<lparr> writes = [], write_faults = [] \<rparr>,
         commands_mem = replicate 224 (CHR ''?'') \<rparr>"
      "\<lparr> protocol_version = 1, mask_bits = 0x20, values_bits = 0x20 \<rparr>"]
    airos_one_write_of_lines[of
      "\<lparr> control_fd = 3, control_file = \<lparr> writes = [], write_faults = [True] \<rparr>,
         commands_mem = replicate 224 (CHR ''?'') \<rparr>"
      "\<lparr> protocol_version = 1, mask_bits = 0x20, values_bits = 0x20 \<rparr>"] airos_pin_5_on
  by (auto simp add: next_write_fails_def)

text \<open>
  Claim C10.  For every command the loop ends without overrunning the 224 bytes of
  \<^verbatim>\<open>commands\<close>: it returns the array and the length \<open>n\<close> of the text generated, \<open>n\<close> is
  at most 214, so that the text and the NUL after it fit; the line of a one-digit
  index has 6 bytes and the line of a two-digit index has 7; the first \<open>n\<close> bytes of
  the array are the text, and they are what the one call of \<^verbatim>\<open>write\<close> is given.
\<close>

theorem airos_text_fits:
  assumes "length (commands_mem d) = 224"
  shows "\<exists>commands n.
           airos_loop p 0 (commands_mem d) 0 = Inr (commands, n)
         \<and> n = length (concat (map (airos_line p) (filter (\<lambda>i. bit (mask_bits p) i) [0..<32])))
         \<and> n \<le> 214
         \<and> length commands = 224
         \<and> n + 1 \<le> length commands
         \<and> take n commands
             = concat (map (airos_line p) (filter (\<lambda>i. bit (mask_bits p) i) [0..<32]))
         \<and> (\<forall>i<10. length (airos_line p i) = 6)
         \<and> (\<forall>i\<in>{10..<32}. length (airos_line p i) = 7)
         \<and> (\<not> next_write_fails (control_file d) \<longrightarrow>
              (\<exists>d'. airos_handle_message d p = Inr d'
                 \<and> writes (control_file d') = writes (control_file d) @ [take n commands]))"
proof -
  let ?text = "concat (airos_lines p 0)"
  from airos_loop_from_0[OF assms, of p] obtain c' where
    c': "airos_loop p 0 (commands_mem d) 0 = Inr (c', length ?text)"
        "length c' = 224" "take (length ?text) c' = ?text"
    by blast
  have b: "length ?text \<le> 214"
    using length_airos_lines[of 0 p] by (simp add: airos_bound_def)
  have l1: "\<forall>i<10. length (airos_line p i) = 6" by (simp add: length_airos_line)
  have l2: "\<forall>i\<in>{10..<32}. length (airos_line p i) = 7" by (simp add: length_airos_line)
  have w: "\<not> next_write_fails (control_file d) \<longrightarrow>
              (\<exists>d'. airos_handle_message d p = Inr d'
                 \<and> writes (control_file d') = writes (control_file d) @ [take (length ?text) c'])"
    using airos_handle_message_ok[OF c'(1)] by auto
  have "length ?text + 1 \<le> length c'" using b c'(2) by simp
  with c' b l1 l2 w show ?thesis
    unfolding airos_lines_def by blast
qed

lemma airos_all_on_length:
  "length (concat (map (airos_line \<lparr> protocol_version = 1, mask_bits = -1, values_bits = -1 \<rparr>)
     (filter (\<lambda>i. bit (mask_bits \<lparr> protocol_version = 1, mask_bits = -1, values_bits = -1 \<rparr>) i)
        [0..<32]))) = 214"
  by code_simp

text \<open>The bound is reached by the command that addresses all 32 indices.\<close>

theorem airos_text_fits_witness:
  "length (commands_mem \<lparr> control_fd = 3, control_file = \<lparr> writes = [], write_faults = [] \<rparr>,
                          commands_mem = replicate 224 (CHR ''?'') \<rparr>) = 224
   \<and> (\<exists>commands.
         airos_loop \<lparr> protocol_version = 1, mask_bits = -1, values_bits = -1 \<rparr> 0
           (replicate 224 (CHR ''?'')) 0 = Inr (commands, 214)
       \<and> length commands = 224)
   \<and> (10::nat) \<in> {10..<32} \<and> (0::nat) < 10
   \<and> \<not> next_write_fails \<lparr> writes = [], write_faults = [] \<rparr>
   \<and> (\<exists>d'. airos_handle_message
              \<lparr> control_fd = 3, control_file = \<lparr> writes = [], write_faults = [] \<rparr>,
                commands_mem = replicate 224 (CHR ''?'') \<rparr>
              \<lparr> protocol_version = 1, mask_bits = -1, values_bits = -1 \<rparr> = Inr d'
          \<and> map length (writes (control_file d')) = [214])"
  using airos_text_fits[of
      "\<lparr> control_fd = 3, control_file = \<lparr> writes = [], write_faults = [] \<rparr>,
         commands_mem = replicate 224 (CHR ''?'') \<rparr>"
      "\<lparr> protocol_version = 1, mask_bits = -1, values_bits = -1 \<rparr>"] airos_all_on_length
  by (auto simp add: next_write_fails_def)


section \<open>Properties of the sysfs server\<close>

subsection \<open>The setup\<close>

text \<open>
  As long as \<^verbatim>\<open>process_led\<close> returns 0 the two counters stay equal, at most 32, and
  nothing is printed on the standard error.
\<close>

lemma process_led_counts:
  assumes "process_led env d name = Inr (0, d')"
      and "entries_found d = entries_count d" and "entries_count d \<le> 32"
      and "sysfs_stderr d = []"
  shows "entries_found d' = entries_count d' \<and> entries_count d' = Suc (entries_count d)
         \<and> entries_count d' \<le> 32 \<and> sysfs_stderr d' = []
         \<and> length (entries d') = length (entries d) \<and> entries_count d' \<le> length (entries d')"
  using assms
  by (auto simp add: process_led_def Let_def split: if_splits option.splits)

lemma sysfs_scan_counts:
  assumes "sysfs_scan env names d = Inr (0, d')"
      and "entries_found d = entries_count d" and "entries_count d \<le> 32"
      and "sysfs_stderr d = []" and "entries_count d \<le> length (entries d)"
  shows "entries_found d' = entries_count d'
         \<and> entries_count d' = entries_count d + length (candidates names)
         \<and> entries_count d' \<le> 32 \<and> sysfs_stderr d' = []
         \<and> entries_count d' \<le> length (entries d')"
  using assms
proof (induction names arbitrary: d)
  case Nil
  then show ?case by (simp add: candidates_def)
next
  case (Cons name names)
  show ?case
  proof (cases "name = ''.'' \<or> name = ''..''")
    case True
    with Cons.prems have "sysfs_scan env names d = Inr (0, d')" by auto
    from Cons.IH[OF this Cons.prems(2,3,4,5)] True show ?thesis by (auto simp add: candidates_def)
  next
    case False
    with Cons.prems(1) obtain d1 where
      p: "process_led env d name = Inr (0, d1)" and s: "sysfs_scan env names d1 = Inr (0, d')"
      by (auto split: sum.splits prod.splits if_splits)
    from process_led_counts[OF p Cons.prems(2,3,4)]
    have d1: "entries_found d1 = entries_count d1" "entries_count d1 \<le> 32" "sysfs_stderr d1 = []"
      "entries_count d1 \<le> length (entries d1)" and c: "entries_count d1 = Suc (entries_count d)"
      by simp_all
    from Cons.IH[OF s d1] c False show ?thesis by (simp add: candidates_def)
  qed
qed

text \<open>
  So the server only starts to serve when the directory has at most 32 candidates, and
  then without any warning: the warning of \<^verbatim>\<open>main\<close> is never printed.
\<close>

lemma sysfs_main_serve:
  assumes "sysfs_main env = Serve d"
  shows "\<exists>names. scandir_result env = Some names \<and> length (candidates names) \<le> 32
          \<and> entries_count d = length (candidates names) \<and> entries_found d = entries_count d
          \<and> entries_count d \<le> length (entries d) \<and> sysfs_stderr d = []"
proof -
  from assms obtain names where n: "scandir_result env = Some names"
    by (auto simp add: sysfs_main_def split: if_splits option.splits)
  from assms n obtain d1 where s: "sysfs_scan env names (sysfs_initial env (length names)) = Inr (0, d1)"
    by (auto simp add: sysfs_main_def Let_def split: if_splits sum.splits prod.splits)
  have "entries_found d1 = entries_count d1
         \<and> entries_count d1 = entries_count (sysfs_initial env (length names)) + length (candidates names)
         \<and> entries_count d1 \<le> 32 \<and> sysfs_stderr d1 = []
         \<and> entries_count d1 \<le> length (entries d1)"
    by (rule sysfs_scan_counts[OF s]) (simp_all add: sysfs_initial_def)
  then have d1: "entries_found d1 = entries_count d1" "entries_count d1 = length (candidates names)"
     "entries_count d1 \<le> 32" "sysfs_stderr d1 = []" "entries_count d1 \<le> length (entries d1)"
    by (simp_all add: sysfs_initial_def)
  from assms n s d1(1) have "d = d1\<lparr> sysfs_stdout := sysfs_stdout d1
        @ [''Serving '' @ fmt_u (entries_count d1) @ '' LEDs.'' @ [newline]] \<rparr>"
    by (simp add: sysfs_main_def Let_def split: if_splits)
  with d1 n show ?thesis by simp
qed

text \<open>
  Claim C2 at a failing input.  The claim asks that with more than 32 candidates the
  first 32 are served and the excess is only a warning.  For a directory of 33 LEDs,
  all readable, \<^verbatim>\<open>main\<close> returns 1 before it serves, and without a message: for the
  33rd name \<^verbatim>\<open>process_led\<close> counts the LED, finds the 32 entries taken and returns 1,
  which \<^verbatim>\<open>main\<close> takes for a failure.  With 32 LEDs the server starts.
\<close>

theorem sysfs_33_leds_not_served:
  "map_option (\<lambda>names. length (candidates names)) (scandir_result (leds_directory 33)) = Some 33
   \<and> is_Exit (sysfs_main (leds_directory 33))
   \<and> exit_status (sysfs_main (leds_directory 33)) = 1
   \<and> exit_stderr (sysfs_main (leds_directory 33)) = []
   \<and> is_Serve (sysfs_main (leds_directory 32))
   \<and> entries_count (served (sysfs_main (leds_directory 32))) = 32"
  by code_simp


subsection \<open>One command\<close>

lemma length_dec_le: "n < 10 ^ k \<Longrightarrow> 0 < k \<Longrightarrow> length (dec n) \<le> k"
proof (induction k arbitrary: n)
  case 0
  then show ?case by simp
next
  case (Suc k)
  show ?case
  proof (cases "n < 10")
    case True
    then show ?thesis by (subst dec.simps) simp
  next
    case False
    with Suc.prems have k: "0 < k" by (cases k) simp_all
    from Suc.prems have "n div 10 < 10 ^ k" by (simp add: less_mult_imp_div_less mult.commute)
    from Suc.IH[OF this k] False show ?thesis by (subst dec.simps) simp
  qed
qed

lemma length_sysfs_format: "length (sysfs_format v) \<le> 12"
proof -
  have lo: "- (2 ^ 31) \<le> sint v" using sint_ge[of v] by simp
  have hi: "sint v < 2 ^ 31" using sint_lt[of v] by simp
  have "length (fmt_d (sint v)) \<le> 11"
  proof (cases "sint v < 0")
    case True
    with lo have "nat (- sint v) < 10 ^ 10" by simp
    from length_dec_le[OF this] True show ?thesis by (simp add: fmt_d_def)
  next
    case False
    with hi have "nat (sint v) < 10 ^ 10" by simp
    from length_dec_le[OF this] False show ?thesis by (simp add: fmt_d_def)
  qed
  then show ?thesis by (simp add: sysfs_format_def)
qed

lemma sysfs_value_eq:
  "sysfs_value p led e = (if bit (values_bits p) led then max_brightness e else 0)"
  by (simp add: sysfs_value_def and_exp_eq_0_iff_not_bit)

lemma sysfs_texts_step:
  "led < entries_count d \<Longrightarrow> sysfs_texts p d fd led =
     (if bit (mask_bits p) led \<and> brightness_fd (entries d ! led) = fd
      then sysfs_format (sysfs_value p led (entries d ! led)) # sysfs_texts p d fd (Suc led)
      else sysfs_texts p d fd (Suc led))"
  by (simp add: sysfs_texts_def upt_conv_Cons sysfs_value_eq)

lemma sysfs_texts_end: "entries_count d \<le> led \<Longrightarrow> sysfs_texts p d fd led = []"
  by (simp add: sysfs_texts_def)

lemma sysfs_texts_cong:
  "entries d' = entries d \<Longrightarrow> entries_count d' = entries_count d \<Longrightarrow>
     sysfs_texts p d' fd led = sysfs_texts p d fd led"
  by (simp add: sysfs_texts_def)


text \<open>
  The loop from index \<open>led\<close>, when no write fails: every descriptor has received, in
  the order of the indices, the texts of the addressed LEDs that use it.
\<close>

lemma sysfs_loop_result:
  assumes "entries_count d \<le> 32" and "entries_count d \<le> length (entries d)"
      and "length (line_mem d) = 16"
      and "\<forall>k<entries_count d. write_faults (files d (brightness_fd (entries d ! k))) = []"
  shows "\<exists>d'. sysfs_loop p led d = Inr d'
           \<and> entries d' = entries d \<and> entries_count d' = entries_count d
           \<and> length (line_mem d') = 16
           \<and> (\<forall>fd. write_faults (files d' fd) = write_faults (files d fd)
                  \<and> writes (files d' fd) = writes (files d fd) @ sysfs_texts p d fd led)"
  using assms
proof (induction p led d rule: sysfs_loop.induct)
  case (1 p led d)
  show ?case
  proof (cases "led < entries_count d")
    case False
    then show ?thesis using "1.prems"
      by (subst sysfs_loop.simps) (simp add: sysfs_texts_end)
  next
    case led: True
    with "1.prems" have l32: "\<not> 32 \<le> led" and len: "\<not> length (entries d) \<le> led" by simp_all
    show ?thesis
    proof (cases "bit (mask_bits p) led")
      case False
      then have m: "mask_bits p AND push_bit led 1 = 0" by (simp add: and_exp_eq_0_iff_not_bit)
      from "1.IH"(1)[OF led l32 m "1.prems"] False led m l32 show ?thesis
        by (subst sysfs_loop.simps) (simp add: sysfs_texts_step)
    next
      case True
      then have m: "mask_bits p AND push_bit led 1 \<noteq> 0" by (simp add: and_exp_eq_0_iff_not_bit)
      let ?e = "entries d ! led"
      let ?t = "sysfs_format (sysfs_value p led ?e)"
      let ?fd = "brightness_fd ?e"
      have "0 + length ?t + 1 \<le> length (line_mem d)"
        using length_sysfs_format[of "sysfs_value p led ?e"] "1.prems"(3) by simp
      from sprintf_at_fits[OF this] obtain b where
        b: "sprintf_at (line_mem d) 0 ?t = Inr b" "length b = 16" "take (length ?t) b = ?t"
        using "1.prems"(3) by auto
      let ?y = "(files d ?fd)\<lparr> writes := writes (files d ?fd) @ [?t] \<rparr>"
      have w: "sys_write (files d ?fd) b (length ?t) = (int (length ?t), ?y)"
        using "1.prems"(4) led b(3) by (simp add: sys_write_def)
      let ?d1 = "d\<lparr> files := (files d)(?fd := ?y), line_mem := b \<rparr>"
      have p1: "entries_count ?d1 \<le> 32" "entries_count ?d1 \<le> length (entries ?d1)"
        "length (line_mem ?d1) = 16"
        "\<forall>k<entries_count ?d1. write_faults (files ?d1 (brightness_fd (entries ?d1 ! k))) = []"
        using "1.prems" b(2) led by auto
      from "1.IH"(2)[OF led l32 m len b(1) w[symmetric] refl p1]
      obtain d' where d': "sysfs_loop p (Suc led) ?d1 = Inr d'"
        "entries d' = entries d" "entries_count d' = entries_count d" "length (line_mem d') = 16"
        "\<forall>fd. write_faults (files d' fd) = write_faults (files ?d1 fd)
             \<and> writes (files d' fd) = writes (files ?d1 fd) @ sysfs_texts p ?d1 fd (Suc led)"
        by auto
      have t: "\<And>fd. sysfs_texts p ?d1 fd (Suc led) = sysfs_texts p d fd (Suc led)"
        by (rule sysfs_texts_cong) simp_all
      have "sysfs_loop p led d = Inr d'"
        using led l32 m len b(1) w d'(1) by (subst sysfs_loop.simps) simp
      moreover have "\<forall>fd. write_faults (files d' fd) = write_faults (files d fd)
             \<and> writes (files d' fd) = writes (files d fd) @ sysfs_texts p d fd led"
        using d'(5) t True led by (simp add: sysfs_texts_step)
      ultimately show ?thesis using d'(2,3,4) by simp
    qed
  qed
qed


lemma filter_eq_upt: "i < n \<Longrightarrow> filter (\<lambda>k. k = i) [0..<n] = [i]"
  by (induction n) (auto simp add: less_Suc_eq)

lemma filter_eq_upt_P: "i < n \<Longrightarrow> filter (\<lambda>k. P k \<and> k = i) [0..<n] = (if P i then [i] else [])"
proof -
  assume i: "i < n"
  have "filter (\<lambda>k. P k \<and> k = i) [0..<n] = filter P (filter (\<lambda>k. k = i) [0..<n])"
    by (simp add: conj_commute)
  then show ?thesis using i by (simp add: filter_eq_upt)
qed

lemma sysfs_ready_fd:
  assumes "sysfs_ready d" and "i < entries_count d" and "k < entries_count d"
  shows "(brightness_fd (entries d ! k) = brightness_fd (entries d ! i)) = (k = i)"
proof -
  let ?xs = "map brightness_fd (take (entries_count d) (entries d))"
  from assms(1) have d: "distinct ?xs" and l: "length ?xs = entries_count d"
    by (simp_all add: sysfs_ready_def)
  from assms(2,3) l have "?xs ! k = brightness_fd (entries d ! k)" "?xs ! i = brightness_fd (entries d ! i)"
    by simp_all
  with nth_eq_iff_index_eq[OF d, of k i] assms(2,3) l show ?thesis by simp
qed

lemma sysfs_texts_own:
  assumes "sysfs_ready d" and "i < entries_count d"
  shows "sysfs_texts p d (brightness_fd (entries d ! i)) 0
           = (if bit (mask_bits p) i
              then [sysfs_format (if bit (values_bits p) i then max_brightness (entries d ! i) else 0)]
              else [])"
proof -
  have "filter (\<lambda>k. bit (mask_bits p) k \<and> brightness_fd (entries d ! k) = brightness_fd (entries d ! i))
          [0..<entries_count d]
        = filter (\<lambda>k. bit (mask_bits p) k \<and> k = i) [0..<entries_count d]"
    using sysfs_ready_fd[OF assms] by (intro filter_cong) auto
  then show ?thesis using assms(2) by (simp add: sysfs_texts_def filter_eq_upt_P)
qed

lemma sysfs_handle_message_ready:
  assumes "sysfs_ready d"
  shows "\<exists>d'. sysfs_handle_message d p = Inr d' \<and> sysfs_ready d'
           \<and> entries d' = entries d \<and> entries_count d' = entries_count d
           \<and> (\<forall>i<entries_count d.
                 writes (files d' (brightness_fd (entries d ! i)))
                   = writes (files d (brightness_fd (entries d ! i)))
                     @ (if bit (mask_bits p) i
                        then [sysfs_format (if bit (values_bits p) i
                                            then max_brightness (entries d ! i) else 0)]
                        else []))"
proof -
  from assms have a: "entries_count d \<le> 32" "entries_count d \<le> length (entries d)"
    "length (line_mem d) = 16"
    "\<forall>k<entries_count d. write_faults (files d (brightness_fd (entries d ! k))) = []"
    by (simp_all add: sysfs_ready_def list_all_length)
  from sysfs_loop_result[OF a, of p 0] obtain d' where
    d': "sysfs_loop p 0 d = Inr d'" "entries d' = entries d" "entries_count d' = entries_count d"
        "length (line_mem d') = 16"
        "\<forall>fd. write_faults (files d' fd) = write_faults (files d fd)
             \<and> writes (files d' fd) = writes (files d fd) @ sysfs_texts p d fd 0"
    by blast
  have r: "sysfs_ready d'"
    using assms d'(2,3,4,5) by (simp add: sysfs_ready_def)
  show ?thesis
    using d' r sysfs_texts_own[OF assms] by (simp add: sysfs_handle_message_def)
qed

text \<open>A LED of the sysfs server that is not addressed receives nothing.\<close>

lemma sysfs_unaddressed_unchanged:
  assumes "sysfs_ready d" and "i < entries_count d" and "\<not> bit (mask_bits p) i"
  shows "\<exists>d'. sysfs_handle_message d p = Inr d'
           \<and> writes (files d' (brightness_fd (entries d' ! i)))
               = writes (files d (brightness_fd (entries d ! i)))"
  using sysfs_handle_message_ready[OF assms(1), of p] assms(2,3) by auto

section \<open>Properties of the pins of the AirOS device\<close>

lemma parse_bodies:
  "list_all (\<lambda>i. parse_line (airos_body i True) = Some (i, 1, 1)
                \<and> parse_line (airos_body i False) = Some (i, 0, 0)
                \<and> newline \<notin> set (airos_body i True) \<and> newline \<notin> set (airos_body i False)) [0..<32]"
  by code_simp

lemma parse_body:
  assumes "i < 32"
  shows "parse_line (airos_body i b) = Some (i, of_bool b, of_bool b)"
    and "newline \<notin> set (airos_body i b)"
  using parse_bodies assms by (cases b; simp add: list_all_iff)+

lemma airos_line_body: "airos_line p i = airos_body i (bit (values_bits p) i) @ [newline]"
  by (simp add: airos_line_def airos_body_def)

lemma split_on_line:
  "c \<notin> set l \<Longrightarrow> split_on c (l @ c # rest) = l # split_on c rest"
  by (induction l) auto

lemma split_on_not_Nil: "split_on c s \<noteq> []"
  by (induction s) auto

lemma gpio_write_line:
  "newline \<notin> set l \<Longrightarrow> gpio_write (l @ newline # rest) pins = gpio_write rest (gpio_line l pins)"
  by (simp add: gpio_write_def split_on_line split_on_not_Nil)

lemma gpio_write_Nil: "gpio_write [] pins = pins"
  by (simp add: gpio_write_def)


lemma gpio_line_body:
  "i < 32 \<Longrightarrow> gpio_line (airos_body i b) pins = pins(i \<mapsto> (of_bool b, of_bool b))"
  by (simp add: gpio_line_def parse_body)

lemma gpio_write_airos_lines:
  "i \<le> 32 \<Longrightarrow>
   gpio_write (concat (airos_lines p i)) pins
     = (\<lambda>j. if i \<le> j \<and> j < 32 \<and> bit (mask_bits p) j
             then Some (of_bool (bit (values_bits p) j), of_bool (bit (values_bits p) j))
             else pins j)"
proof (induction "32 - i" arbitrary: i pins)
  case 0
  then show ?case by (auto simp add: airos_lines_end gpio_write_Nil fun_eq_iff)
next
  case (Suc k)
  then have i: "i < 32" and k: "k = 32 - Suc i" and s: "Suc i \<le> 32" by simp_all
  note IH = Suc.hyps(1)[OF k s]
  show ?case
  proof (cases "bit (mask_bits p) i")
    case False
    then have "airos_lines p i = airos_lines p (Suc i)" using i by (simp add: airos_lines_step)
    with IH[of pins] False show ?thesis by (auto simp add: fun_eq_iff Suc_le_eq le_less)
  next
    case True
    let ?b = "bit (values_bits p) i"
    have "concat (airos_lines p i) = airos_body i ?b @ newline # concat (airos_lines p (Suc i))"
      using i True by (simp add: airos_lines_step airos_line_body)
    then have "gpio_write (concat (airos_lines p i)) pins
        = gpio_write (concat (airos_lines p (Suc i))) (pins(i \<mapsto> (of_bool ?b, of_bool ?b)))"
      using i by (simp add: gpio_write_line parse_body(2) gpio_line_body)
    with IH[of "pins(i \<mapsto> (of_bool ?b, of_bool ?b))"] True i show ?thesis
      by (auto simp add: fun_eq_iff Suc_le_eq le_less)
  qed
qed

lemma airos_handle_message_ready:
  assumes "airos_ready d"
  shows "\<exists>d'. airos_handle_message d p = Inr d' \<and> airos_ready d'
           \<and> writes (control_file d') = writes (control_file d) @ [concat (airos_lines p 0)]"
proof -
  from assms have l: "length (commands_mem d) = 224" and f: "write_faults (control_file d) = []"
    by (simp_all add: airos_ready_def)
  from airos_loop_from_0[OF l, of p] obtain c where
    c: "airos_loop p 0 (commands_mem d) 0 = Inr (c, length (concat (airos_lines p 0)))"
       "length c = 224" "take (length (concat (airos_lines p 0))) c = concat (airos_lines p 0)"
    by blast
  show ?thesis using c f
    by (simp add: airos_handle_message_def sys_write_def airos_ready_def)
qed

lemma gpio_pins_airos:
  assumes "airos_ready d"
  shows "\<exists>d'. airos_handle_message d p = Inr d' \<and> airos_ready d'
           \<and> gpio_pins (control_file d') pins
               = (\<lambda>j. if j < 32 \<and> bit (mask_bits p) j
                       then Some (of_bool (bit (values_bits p) j), of_bool (bit (values_bits p) j))
                       else gpio_pins (control_file d) pins j)"
proof -
  from airos_handle_message_ready[OF assms, of p] obtain d' where
    d': "airos_handle_message d p = Inr d'" "airos_ready d'"
        "writes (control_file d') = writes (control_file d) @ [concat (airos_lines p 0)]"
    by blast
  have "gpio_pins (control_file d') pins
          = gpio_write (concat (airos_lines p 0)) (gpio_pins (control_file d) pins)"
    by (simp add: gpio_pins_def d'(3))
  with d'(1,2) show ?thesis by (simp add: gpio_write_airos_lines)
qed

text \<open>A pin of the AirOS device that is not addressed keeps its state.\<close>

lemma airos_unaddressed_unchanged:
  assumes "airos_ready d" and "\<not> bit (mask_bits p) j"
  shows "\<exists>d'. airos_handle_message d p = Inr d'
           \<and> gpio_pins (control_file d') pins j = gpio_pins (control_file d) pins j"
  using gpio_pins_airos[OF assms(1), of p pins] assms(2) by auto

section \<open>The last command wins\<close>







end
